theory Spec2Isabelle
  imports Complex_Main "HOL-Library.Char_ord" "HOL-Library.List_Lexorder" "HOL-Library.Multiset"
begin

section \<open>Python values\<close>

text \<open>
  The free-form \<^verbatim>\<open>Dict[str, Any]\<close> contexts of the source hold Python values. The
  values modelled are the JSON types, floats carried by their \<^verbatim>\<open>repr\<close> text, and
  \<open>PObj\<close>: an instance of a class outside the JSON types (a \<^verbatim>\<open>datetime\<close>, say),
  carried by its \<^verbatim>\<open>str()\<close> text and its \<^verbatim>\<open>repr()\<close> text, which has no
  \<^verbatim>\<open>len()\<close>, is hashable and is truthy.
  A dict is an association list in insertion order, its keys strings.
  Strings hold code points below 256.
\<close>

datatype pyval =
    PNone
  | PBool bool
  | PInt int
  | PFloat string
  | PStr string
  | PList "pyval list"
  | PDict "(string \<times> pyval) list"
  | PObj string string

type_synonym pydict = "(string \<times> pyval) list"

datatype py_error =
    TypeError
  | KeyError string
  | Raised string

text \<open>Truthiness, as \<^verbatim>\<open>if v:\<close> and \<^verbatim>\<open>a or b\<close> read a value.\<close>

fun truthy :: "pyval \<Rightarrow> bool" where
  "truthy PNone = False"
| "truthy (PBool b) = b"
| "truthy (PInt i) = (i \<noteq> 0)"
| "truthy (PFloat r) = (r \<noteq> ''0.0'' \<and> r \<noteq> ''-0.0'')"
| "truthy (PStr s) = (s \<noteq> [])"
| "truthy (PList xs) = (xs \<noteq> [])"
| "truthy (PDict kvs) = (kvs \<noteq> [])"
| "truthy (PObj s r) = True"

text \<open>\<^verbatim>\<open>len(v)\<close>: a TypeError on a value without a length.\<close>

fun py_len :: "pyval \<Rightarrow> py_error + nat" where
  "py_len (PStr s) = Inr (length s)"
| "py_len (PList xs) = Inr (length xs)"
| "py_len (PDict kvs) = Inr (length kvs)"
| "py_len v = Inl TypeError"

text \<open>\<^verbatim>\<open>d.get(k, default)\<close> and \<^verbatim>\<open>d[k]\<close>.\<close>

definition dict_get :: "pydict \<Rightarrow> string \<Rightarrow> pyval \<Rightarrow> pyval" where
  "dict_get d k dflt = (case map_of d k of None \<Rightarrow> dflt | Some v \<Rightarrow> v)"

definition dict_item :: "pydict \<Rightarrow> string \<Rightarrow> py_error + pyval" where
  "dict_item d k = (case map_of d k of None \<Rightarrow> Inl (KeyError k) | Some v \<Rightarrow> Inr v)"

subsection \<open>Rendering numbers and strings\<close>

fun str_nat :: "nat \<Rightarrow> string" where
  "str_nat n =
     (if n < 10 then [char_of (48 + n)]
      else str_nat (n div 10) @ [char_of (48 + n mod 10)])"

declare str_nat.simps [simp del]

definition str_int :: "int \<Rightarrow> string" where
  "str_int i = (if i < 0 then CHR ''-'' # str_nat (nat (- i)) else str_nat (nat i))"

definition hex_digit :: "nat \<Rightarrow> char" where
  "hex_digit n = (if n < 10 then char_of (48 + n) else char_of (87 + n))"

definition hex2 :: "char \<Rightarrow> string" where
  "hex2 c = [hex_digit (of_char c div 16), hex_digit (of_char c mod 16)]"

fun join :: "string \<Rightarrow> string list \<Rightarrow> string" where
  "join sep [] = []"
| "join sep [x] = x"
| "join sep (x # y # ys) = x @ sep @ join sep (y # ys)"

text \<open>The first error of a sequence of results wins, as the first raise would.\<close>

fun collect :: "(py_error + 'a) list \<Rightarrow> py_error + 'a list" where
  "collect [] = Inr []"
| "collect (x # xs) =
     (case x of
        Inl e \<Rightarrow> Inl e
      | Inr v \<Rightarrow> (case collect xs of Inl e \<Rightarrow> Inl e | Inr vs \<Rightarrow> Inr (v # vs)))"

subsection \<open>\<^verbatim>\<open>json.dumps\<close>\<close>

text \<open>
  The encoder of the standard library with its defaults (\<^verbatim>\<open>ensure_ascii\<close>,
  separators \<^verbatim>\<open>", "\<close> and \<^verbatim>\<open>": "\<close>): a character outside space..tilde, a quote and
  a backslash are escaped.
\<close>

definition json_esc :: "char \<Rightarrow> string" where
  "json_esc c =
     (if c = CHR 0x22 then [CHR 0x5C, CHR 0x22]
      else if c = CHR 0x5C then [CHR 0x5C, CHR 0x5C]
      else if c = CHR 0x0A then [CHR 0x5C, CHR ''n'']
      else if c = CHR 0x0D then [CHR 0x5C, CHR ''r'']
      else if c = CHR 0x09 then [CHR 0x5C, CHR ''t'']
      else if c = CHR 0x08 then [CHR 0x5C, CHR ''b'']
      else if c = CHR 0x0C then [CHR 0x5C, CHR ''f'']
      else if (of_char c :: nat) < 32 \<or> (of_char c :: nat) > 126
        then [CHR 0x5C, CHR ''u'', CHR ''0'', CHR ''0''] @ hex2 c
      else [c])"

definition json_str :: "string \<Rightarrow> string" where
  "json_str s = [CHR 0x22] @ concat (map json_esc s) @ [CHR 0x22]"

definition json_float :: "string \<Rightarrow> string" where
  "json_float r =
     (if r = ''nan'' then ''NaN''
      else if r = ''inf'' then ''Infinity''
      else if r = ''-inf'' then ''-Infinity''
      else r)"

text \<open>
  \<open>json_dumps sk v\<close> is \<^verbatim>\<open>json.dumps(v, sort_keys=sk)\<close>. With \<^verbatim>\<open>sort_keys\<close> the items
  of every dict, nested ones too, are sorted by key before they are encoded. An object
  outside the JSON types raises TypeError.
\<close>

function json_dumps :: "bool \<Rightarrow> pyval \<Rightarrow> py_error + string" where
  "json_dumps sk PNone = Inr ''null''"
| "json_dumps sk (PBool b) = Inr (if b then ''true'' else ''false'')"
| "json_dumps sk (PInt i) = Inr (str_int i)"
| "json_dumps sk (PFloat r) = Inr (json_float r)"
| "json_dumps sk (PStr s) = Inr (json_str s)"
| "json_dumps sk (PList xs) =
     (case collect (map (json_dumps sk) xs) of
        Inl e \<Rightarrow> Inl e
      | Inr ss \<Rightarrow> Inr (''['' @ join '', '' ss @ '']''))"
| "json_dumps sk (PDict kvs) =
     (case collect (map (\<lambda>kv. case json_dumps sk (snd kv) of
                                  Inl e \<Rightarrow> Inl e
                                | Inr s \<Rightarrow> Inr (json_str (fst kv) @ '': '' @ s))
                        (if sk then sort_key fst kvs else kvs)) of
        Inl e \<Rightarrow> Inl e
      | Inr ss \<Rightarrow> Inr (''{'' @ join '', '' ss @ ''}''))"
| "json_dumps sk (PObj s r) = Inl TypeError"
  by pat_completeness auto

termination json_dumps
proof (relation "measure (\<lambda>(sk, v). size v)", goal_cases)
  case 1
  show ?case by simp
next
  case (2 sk xs x)
  then show ?case by (induction xs) auto
next
  case (3 sk kvs kv)
  then have "kv \<in> set kvs" by (simp split: if_splits)
  then have "size (snd kv) < size (PDict kvs)" by (induction kvs) auto
  then show ?case by simp
qed

subsection \<open>\<^verbatim>\<open>repr\<close> and \<^verbatim>\<open>str\<close>\<close>

text \<open>
  What an f-string or \<^verbatim>\<open>str()\<close> makes of a value. A string is quoted by \<^verbatim>\<open>repr\<close>
  inside a container and is itself under \<^verbatim>\<open>str\<close>; a \<open>PObj\<close> has a text for
  each.
\<close>

definition repr_esc :: "char \<Rightarrow> char \<Rightarrow> string" where
  "repr_esc q c =
     (if c = q \<or> c = CHR 0x5C then [CHR 0x5C, c]
      else if c = CHR 0x09 then [CHR 0x5C, CHR ''t'']
      else if c = CHR 0x0A then [CHR 0x5C, CHR ''n'']
      else if c = CHR 0x0D then [CHR 0x5C, CHR ''r'']
      else if (of_char c :: nat) < 32 \<or> (of_char c :: nat) = 127
              \<or> (128 \<le> (of_char c :: nat) \<and> (of_char c :: nat) \<le> 160)
              \<or> (of_char c :: nat) = 173
        then [CHR 0x5C, CHR ''x''] @ hex2 c
      else [c])"

definition repr_str :: "string \<Rightarrow> string" where
  "repr_str s =
     (let q = (if CHR 0x27 \<in> set s \<and> CHR 0x22 \<notin> set s then CHR 0x22 else CHR 0x27)
      in [q] @ concat (map (repr_esc q) s) @ [q])"

function py_repr :: "pyval \<Rightarrow> string" where
  "py_repr PNone = ''None''"
| "py_repr (PBool b) = (if b then ''True'' else ''False'')"
| "py_repr (PInt i) = str_int i"
| "py_repr (PFloat r) = r"
| "py_repr (PStr s) = repr_str s"
| "py_repr (PList xs) = ''['' @ join '', '' (map py_repr xs) @ '']''"
| "py_repr (PDict kvs) =
     ''{'' @ join '', '' (map (\<lambda>kv. repr_str (fst kv) @ '': '' @ py_repr (snd kv)) kvs) @ ''}''"
| "py_repr (PObj s r) = r"
  by pat_completeness auto

termination py_repr
proof (relation "measure size", goal_cases)
  case 1
  show ?case by simp
next
  case (2 xs x)
  then show ?case by (induction xs) auto
next
  case (3 kvs kv)
  then have "size (snd kv) < size (PDict kvs)" by (induction kvs) auto
  then show ?case by simp
qed

fun py_str :: "pyval \<Rightarrow> string" where
  "py_str (PStr s) = s"
| "py_str (PObj s r) = s"
| "py_str v = py_repr v"

text \<open>
  \<^verbatim>\<open>str(e)\<close> of a caught exception: a KeyError prints the \<^verbatim>\<open>repr\<close> of its key. The
  message of a TypeError is not modelled; the name of the exception stands for it.
\<close>

fun err_str :: "py_error \<Rightarrow> string" where
  "err_str TypeError = ''TypeError''"
| "err_str (KeyError k) = repr_str k"
| "err_str (Raised m) = m"

section \<open>Cost optimizer (\<^verbatim>\<open>agents/cost_optimizer.py\<close>)\<close>

datatype ModelTier = SMALL | MEDIUM | LARGE

fun tier_value :: "ModelTier \<Rightarrow> string" where
  "tier_value SMALL = ''gpt-3.5-turbo''"
| "tier_value MEDIUM = ''gpt-3.5-turbo-16k''"
| "tier_value LARGE = ''gpt-4''"

text \<open>
  \<^verbatim>\<open>self.cache\<close> is a dict, which keeps insertion order: an association list from key
  to response. \<^verbatim>\<open>self.stats\<close> holds the four counters; \<^verbatim>\<open>calls_by_tier\<close> is keyed by
  the tier (the source keys it by the tier's value, one string per tier). Costs are
  floats in the source and exact rationals here.
\<close>

record CostOptimizer =
  cache :: "(string \<times> string) list"
  cache_hits :: nat
  cache_misses :: nat
  total_cost :: rat
  calls_by_tier :: "ModelTier \<Rightarrow> nat"

definition init_optimizer :: CostOptimizer where
  "init_optimizer =
     \<lparr>cache = [], cache_hits = 0, cache_misses = 0, total_cost = 0,
      calls_by_tier = (\<lambda>t. 0)\<rparr>"

fun cost_input :: "ModelTier \<Rightarrow> rat" where
  "cost_input SMALL = 15 / 10000"
| "cost_input MEDIUM = 3 / 1000"
| "cost_input LARGE = 3 / 100"

fun cost_output :: "ModelTier \<Rightarrow> rat" where
  "cost_output SMALL = 2 / 1000"
| "cost_output MEDIUM = 4 / 1000"
| "cost_output LARGE = 6 / 100"

definition simple_tasks :: "string list" where
  "simple_tasks = [''extract_po_number'', ''parse_date'', ''extract_quantity'']"

definition medium_tasks :: "string list" where
  "medium_tasks = [''classify_intent'', ''extract_entities'', ''format_response'']"

definition complex_tasks :: "string list" where
  "complex_tasks = [''multi_step_reasoning'', ''decision_making'', ''coordination'']"

definition analyze_task_complexity :: "string \<Rightarrow> pydict \<Rightarrow> py_error + ModelTier" where
  "analyze_task_complexity task_type ctx =
     (if task_type \<in> set simple_tasks then Inr SMALL
      else if task_type \<in> set medium_tasks then
        (case py_len (dict_get ctx ''text'' (PStr [])) of
           Inl e \<Rightarrow> Inl e
         | Inr n \<Rightarrow> if n < 500 then Inr SMALL else Inr MEDIUM)
      else if task_type \<in> set complex_tasks
              \<or> truthy (dict_get ctx ''requires_reasoning'' (PBool False)) then Inr LARGE
      else Inr MEDIUM)"

text \<open>
  \<^verbatim>\<open>_generate_cache_key\<close>. The digest \<^verbatim>\<open>hashlib.md5(...).hexdigest()\<close> is the
  parameter \<open>md5\<close>.
\<close>

definition generate_cache_key ::
  "(string \<Rightarrow> string) \<Rightarrow> string \<Rightarrow> string \<Rightarrow> pydict \<Rightarrow> py_error + string" where
  "generate_cache_key md5 task_type prompt ctx =
     (case json_dumps True (PDict ctx) of
        Inl e \<Rightarrow> Inl e
      | Inr j \<Rightarrow> Inr (md5 (task_type @ '':'' @ prompt @ '':'' @ j)))"

text \<open>\<^verbatim>\<open>d[k] = v\<close> keeps the place of a key already present; \<^verbatim>\<open>del d[k]\<close>.\<close>

fun dict_set :: "'k \<Rightarrow> 'v \<Rightarrow> ('k \<times> 'v) list \<Rightarrow> ('k \<times> 'v) list" where
  "dict_set k v [] = [(k, v)]"
| "dict_set k v (p # ps) = (if fst p = k then (k, v) # ps else p # dict_set k v ps)"

definition dict_del :: "'k \<Rightarrow> ('k \<times> 'v) list \<Rightarrow> ('k \<times> 'v) list" where
  "dict_del k d = filter (\<lambda>p. fst p \<noteq> k) d"

definition get_cached_response ::
  "(string \<Rightarrow> string) \<Rightarrow> string \<Rightarrow> string \<Rightarrow> pydict \<Rightarrow> CostOptimizer
     \<Rightarrow> py_error + (string option \<times> CostOptimizer)" where
  "get_cached_response md5 task_type prompt ctx opt =
     (case generate_cache_key md5 task_type prompt ctx of
        Inl e \<Rightarrow> Inl e
      | Inr cache_key \<Rightarrow>
          (case map_of (cache opt) cache_key of
             Some r \<Rightarrow> Inr (Some r, opt\<lparr>cache_hits := cache_hits opt + 1\<rparr>)
           | None \<Rightarrow> Inr (None, opt\<lparr>cache_misses := cache_misses opt + 1\<rparr>)))"

definition max_cache_size :: nat where
  "max_cache_size = 1000"

text \<open>The store of \<^verbatim>\<open>cache_response\<close>, on the cache alone.\<close>

definition cache_put :: "string \<Rightarrow> string \<Rightarrow> (string \<times> string) list \<Rightarrow> (string \<times> string) list" where
  "cache_put cache_key response c =
     (let c1 = dict_set cache_key response c
      in if length c1 > max_cache_size then
           (case c1 of [] \<Rightarrow> c1 | oldest # rest \<Rightarrow> dict_del (fst oldest) c1)
         else c1)"

definition cache_response ::
  "(string \<Rightarrow> string) \<Rightarrow> string \<Rightarrow> string \<Rightarrow> pydict \<Rightarrow> string \<Rightarrow> CostOptimizer
     \<Rightarrow> py_error + CostOptimizer" where
  "cache_response md5 task_type prompt ctx response opt =
     (case generate_cache_key md5 task_type prompt ctx of
        Inl e \<Rightarrow> Inl e
      | Inr cache_key \<Rightarrow> Inr (opt\<lparr>cache := cache_put cache_key response (cache opt)\<rparr>))"

subsection \<open>The provider\<close>

text \<open>
  \<^verbatim>\<open>_call_openai\<close> stands for an external service. \<open>call_llm\<close> takes it as the
  parameter \<open>provider\<close>: given the number of calls made so far, a tier and a prompt, it
  answers with a response and a cost, or raises. The calls made are kept in a log beside
  the optimizer, so that "the provider was not called" can be said.
\<close>

type_synonym provider = "nat \<Rightarrow> ModelTier \<Rightarrow> string \<Rightarrow> py_error + string \<times> rat"

type_synonym call_log = "(ModelTier \<times> string) list"

text \<open>
  \<^verbatim>\<open>_call_openai\<close> as the repository has it: the mock response when the \<^verbatim>\<open>openai\<close>
  package is missing, the placeholder otherwise.
\<close>

definition mock_response :: "ModelTier \<Rightarrow> string" where
  "mock_response tier =
     (case tier of
        SMALL \<Rightarrow> ''Mock response from '' @ tier_value tier
      | MEDIUM \<Rightarrow> ''Detailed mock response from '' @ tier_value tier
      | LARGE \<Rightarrow> ''Comprehensive mock response from '' @ tier_value tier @ '' with reasoning'')"

definition call_openai :: "bool \<Rightarrow> ModelTier \<Rightarrow> string \<Rightarrow> string \<times> rat" where
  "call_openai openai_available tier prompt =
     (if \<not> openai_available then
        (let input_tokens = of_nat (length prompt) / 4;
             output_tokens = of_nat (length (mock_response tier)) / 4;
             cost = (input_tokens * cost_input tier + output_tokens * cost_output tier) / 1000
         in (mock_response tier, cost))
      else (''Response'', 0))"

definition repo_provider :: "bool \<Rightarrow> provider" where
  "repo_provider openai_available = (\<lambda>n tier prompt. Inr (call_openai openai_available tier prompt))"

subsection \<open>\<^verbatim>\<open>call_llm\<close>\<close>

definition never_cascade :: "string list" where
  "never_cascade = [''extract_po_number'', ''parse_date'']"

definition bump_tier :: "ModelTier \<Rightarrow> CostOptimizer \<Rightarrow> CostOptimizer" where
  "bump_tier tier opt = opt\<lparr>calls_by_tier := (calls_by_tier opt)(tier := calls_by_tier opt tier + 1)\<rparr>"

text \<open>
  The \<^verbatim>\<open>try\<close> block of the cascade: \<open>None\<close> when the attempt raised (the bare
  \<^verbatim>\<open>except\<close> swallows it) or the response is no longer than 10 characters.
\<close>

definition try_small ::
  "(string \<Rightarrow> string) \<Rightarrow> provider \<Rightarrow> string \<Rightarrow> string \<Rightarrow> pydict
     \<Rightarrow> CostOptimizer \<times> call_log \<Rightarrow> (string \<times> rat) option \<times> (CostOptimizer \<times> call_log)" where
  "try_small md5 prov task_type prompt ctx st =
     (let opt = fst st; log = snd st; log1 = log @ [(SMALL, prompt)]
      in case prov (length log) SMALL prompt of
           Inl e \<Rightarrow> (None, (opt, log1))
         | Inr rc \<Rightarrow>
             if length (fst rc) > 10 then
               (case cache_response md5 task_type prompt ctx (fst rc) (bump_tier SMALL opt) of
                  Inl e \<Rightarrow> (None, (bump_tier SMALL opt, log1))
                | Inr opt2 \<Rightarrow> (Some rc, (opt2, log1)))
             else (None, (opt, log1)))"

text \<open>The call at the determined tier, after the cascade.\<close>

definition use_tier ::
  "(string \<Rightarrow> string) \<Rightarrow> provider \<Rightarrow> ModelTier \<Rightarrow> string \<Rightarrow> string \<Rightarrow> pydict
     \<Rightarrow> CostOptimizer \<times> call_log \<Rightarrow> (py_error + string \<times> rat) \<times> (CostOptimizer \<times> call_log)" where
  "use_tier md5 prov tier task_type prompt ctx st =
     (let opt = fst st; log = snd st; log1 = log @ [(tier, prompt)]
      in case prov (length log) tier prompt of
           Inl e \<Rightarrow> (Inl e, (opt, log1))
         | Inr rc \<Rightarrow>
             (let opt1 = (bump_tier tier opt)\<lparr>total_cost := total_cost opt + snd rc\<rparr>
              in case cache_response md5 task_type prompt ctx (fst rc) opt1 of
                   Inl e \<Rightarrow> (Inl e, (opt1, log1))
                 | Inr opt2 \<Rightarrow> (Inr rc, (opt2, log1))))"

definition call_llm ::
  "(string \<Rightarrow> string) \<Rightarrow> provider \<Rightarrow> string \<Rightarrow> string \<Rightarrow> pydict option \<Rightarrow> ModelTier option
     \<Rightarrow> CostOptimizer \<times> call_log \<Rightarrow> (py_error + string \<times> rat) \<times> (CostOptimizer \<times> call_log)" where
  "call_llm md5 prov task_type prompt context force_tier st =
     (let ctx = (case context of None \<Rightarrow> [] | Some c \<Rightarrow> c)
      in case get_cached_response md5 task_type prompt ctx (fst st) of
           Inl e \<Rightarrow> (Inl e, st)
         | Inr hit \<Rightarrow>
             (case fst hit of
                Some (c # cs) \<Rightarrow> (Inr (c # cs, 0), (snd hit, snd st))
              | _ \<Rightarrow>
                  (case (case force_tier of
                           Some t \<Rightarrow> Inr t
                         | None \<Rightarrow> analyze_task_complexity task_type ctx) of
                     Inl e \<Rightarrow> (Inl e, (snd hit, snd st))
                   | Inr tier \<Rightarrow>
                       if force_tier = None \<and> task_type \<notin> set never_cascade then
                         (case try_small md5 prov task_type prompt ctx (snd hit, snd st) of
                            (Some rc, st1) \<Rightarrow> (Inr rc, st1)
                          | (None, st1) \<Rightarrow> use_tier md5 prov tier task_type prompt ctx st1)
                       else use_tier md5 prov tier task_type prompt ctx (snd hit, snd st))))"

subsection \<open>\<^verbatim>\<open>get_stats\<close>\<close>





section \<open>Observability ledger (\<^verbatim>\<open>agents/observability.py\<close>)\<close>

text \<open>
  The fields of an event and of an agent's metrics carry a prefix where the source's
  name is taken. The reading of \<^verbatim>\<open>datetime.now().isoformat()\<close> is the argument
  \<open>now\<close> of \<open>log_event\<close>.
\<close>

record Event =
  ev_timestamp :: string
  ev_agent :: string
  ev_action :: string
  ev_context :: string
  ev_outcome :: string
  ev_cost :: rat
  ev_duration_ms :: rat
  ev_execution_id :: string

record AgentMetrics =
  total_actions :: nat
  successful_actions :: nat
  failed_actions :: nat
  metrics_total_cost :: rat
  total_time :: rat
  overrides :: nat

definition default_metrics :: AgentMetrics where
  "default_metrics =
     \<lparr>total_actions = 0, successful_actions = 0, failed_actions = 0,
      metrics_total_cost = 0, total_time = 0, overrides = 0\<rparr>"

record ObservabilityLogger =
  events :: "Event list"
  agent_metrics :: "string \<rightharpoonup> AgentMetrics"

definition init_logger :: ObservabilityLogger where
  "init_logger = \<lparr>events = [], agent_metrics = Map.empty\<rparr>"

text \<open>\<^verbatim>\<open>self.agent_metrics[agent_name]\<close> of the \<^verbatim>\<open>defaultdict\<close>.\<close>

definition metrics_of :: "ObservabilityLogger \<Rightarrow> string \<Rightarrow> AgentMetrics" where
  "metrics_of lg agent_name =
     (case agent_metrics lg agent_name of None \<Rightarrow> default_metrics | Some m \<Rightarrow> m)"

definition max_events :: nat where
  "max_events = 1000"

text \<open>
  \<^verbatim>\<open>json.dumps(context) if isinstance(context, dict) else str(context)\<close>: the
  encoding of a dict may raise.
\<close>

definition context_blob :: "pyval \<Rightarrow> py_error + string" where
  "context_blob ctx = (case ctx of PDict d \<Rightarrow> json_dumps False (PDict d) | v \<Rightarrow> Inr (py_str v))"

text \<open>\<open>log_event\<close> builds the event first, so a raise comes before anything is recorded.\<close>

definition log_event ::
  "string \<Rightarrow> string \<Rightarrow> string \<Rightarrow> pyval \<Rightarrow> string \<Rightarrow> rat \<Rightarrow> rat \<Rightarrow> string option
     \<Rightarrow> ObservabilityLogger \<Rightarrow> py_error + ObservabilityLogger" where
  "log_event now agent_name act ctx outc cst dur exec_id lg =
     (case context_blob ctx of
        Inl e \<Rightarrow> Inl e
      | Inr blob \<Rightarrow>
          (let event = \<lparr>ev_timestamp = now, ev_agent = agent_name, ev_action = act,
                         ev_context = blob, ev_outcome = outc, ev_cost = cst,
                         ev_duration_ms = dur,
                         ev_execution_id =
                           (case exec_id of
                              Some (c # cs) \<Rightarrow> c # cs
                            | _ \<Rightarrow> ''exec_'' @ str_nat (length (events lg)))\<rparr>;
               evs = events lg @ [event];
               m = metrics_of lg agent_name;
               m1 = m\<lparr>total_actions := total_actions m + 1\<rparr>;
               m2 = (if outc = ''success''
                     then m1\<lparr>successful_actions := successful_actions m1 + 1\<rparr>
                     else m1\<lparr>failed_actions := failed_actions m1 + 1\<rparr>);
               m3 = m2\<lparr>metrics_total_cost := metrics_total_cost m2 + cst,
                        total_time := total_time m2 + dur\<rparr>
           in Inr \<lparr>events = (if length evs > max_events
                               then drop (length evs - max_events) evs else evs),
                    agent_metrics = (agent_metrics lg)(agent_name \<mapsto> m3)\<rparr>))"

definition decision_context :: "string \<Rightarrow> string \<Rightarrow> pydict \<Rightarrow> pyval" where
  "decision_context decision reasoning inputs =
     PDict [(''reasoning'', PStr reasoning), (''inputs'', PDict inputs),
            (''decision'', PStr decision)]"

definition log_decision ::
  "string \<Rightarrow> string \<Rightarrow> string \<Rightarrow> string \<Rightarrow> pydict \<Rightarrow> string option
     \<Rightarrow> ObservabilityLogger \<Rightarrow> py_error + ObservabilityLogger" where
  "log_decision now agent_name decision reasoning inputs exec_id lg =
     log_event now agent_name (''decision: '' @ decision)
       (decision_context decision reasoning inputs) ''success'' 0 0 exec_id lg"

text \<open>
  \<open>log_override\<close> counts the override, then logs. The count stays if the logging
  raises, so the logger comes back beside the error.
\<close>

definition override_context :: "string \<Rightarrow> string \<Rightarrow> pyval" where
  "override_context original_decision override_reason =
     PDict [(''original_decision'', PStr original_decision),
            (''override_reason'', PStr override_reason)]"

definition log_override ::
  "string \<Rightarrow> string \<Rightarrow> string \<Rightarrow> string \<Rightarrow> ObservabilityLogger
     \<Rightarrow> py_error option \<times> ObservabilityLogger" where
  "log_override now agent_name original_decision override_reason lg =
     (let m = metrics_of lg agent_name;
          lg1 = lg\<lparr>agent_metrics := (agent_metrics lg)(agent_name \<mapsto> m\<lparr>overrides := overrides m + 1\<rparr>)\<rparr>
      in case log_event now agent_name ''override''
                (override_context original_decision override_reason)
                ''overridden'' 0 0 None lg1 of
           Inl e \<Rightarrow> (Some e, lg1)
         | Inr lg2 \<Rightarrow> (None, lg2))"

text \<open>A run of the ledger's three operations; a raising call leaves what it left.\<close>

datatype ledger_op =
    LogEvent string string string pyval string rat rat "string option"
  | LogDecision string string string string pydict "string option"
  | LogOverride string string string string

fun ledger_step :: "ObservabilityLogger \<Rightarrow> ledger_op \<Rightarrow> ObservabilityLogger" where
  "ledger_step lg (LogEvent now a act ctx outc cst dur ex) =
     (case log_event now a act ctx outc cst dur ex lg of Inl e \<Rightarrow> lg | Inr lg1 \<Rightarrow> lg1)"
| "ledger_step lg (LogDecision now a dec rsn inputs ex) =
     (case log_decision now a dec rsn inputs ex lg of Inl e \<Rightarrow> lg | Inr lg1 \<Rightarrow> lg1)"
| "ledger_step lg (LogOverride now a orig rsn) = snd (log_override now a orig rsn lg)"

definition run_ledger :: "ledger_op list \<Rightarrow> ObservabilityLogger" where
  "run_ledger ops = foldl ledger_step init_logger ops"

section \<open>Orchestrator (\<^verbatim>\<open>agents/orchestrator.py\<close>)\<close>

record AgentInfo =
  display_name :: string
  status :: string
  active_tasks :: int
  description :: string

record AgentOrchestrator =
  cost_optimizer :: CostOptimizer
  observability :: ObservabilityLogger
  agents :: "string \<rightharpoonup> AgentInfo"

definition init_agents :: "string \<rightharpoonup> AgentInfo" where
  "init_agents =
     [''inbox_agent'' \<mapsto> \<lparr>display_name = ''Inbox Agent'', status = ''idle'', active_tasks = 0,
                           description = ''Parses emails and extracts entities''\<rparr>,
      ''po_tracker'' \<mapsto> \<lparr>display_name = ''PO Tracker Agent'', status = ''idle'', active_tasks = 0,
                          description = ''Tracks purchase orders and delivery dates''\<rparr>,
      ''change_manager'' \<mapsto> \<lparr>display_name = ''Change Manager Agent'', status = ''idle'',
                              active_tasks = 0,
                              description = ''Handles price and quantity changes''\<rparr>,
      ''routing_agent'' \<mapsto> \<lparr>display_name = ''Routing Agent'', status = ''idle'', active_tasks = 0,
                             description = ''Routes emails to appropriate agents''\<rparr>]"

definition init_orchestrator :: AgentOrchestrator where
  "init_orchestrator =
     \<lparr>cost_optimizer = init_optimizer, observability = init_logger, agents = init_agents\<rparr>"

text \<open>
  The external collaborators: the digest, the inference provider, and the two calls of
  the email parser, each of which may raise.
\<close>

record Collaborators =
  md5_hex :: "string \<Rightarrow> string"
  llm_provider :: provider
  extract_entities :: "string \<Rightarrow> string \<Rightarrow> py_error + pydict"
  classify_intent :: "string \<Rightarrow> string \<Rightarrow> py_error + pydict"

text \<open>
  What one request reads from its environment: the execution id (made of the clock and
  of the salted \<^verbatim>\<open>hash\<close>), the timestamp of its events and the two durations.
\<close>

record Readings =
  request_id :: string
  now_iso :: string
  parse_duration :: rat
  total_duration :: rat

text \<open>
  The two statements that mark an agent active, and the two that mark it idle again,
  with the \<^verbatim>\<open>max(0, ...)\<close> of the source.
\<close>

definition mark_active :: "string \<Rightarrow> (string \<rightharpoonup> AgentInfo) \<Rightarrow> py_error + (string \<rightharpoonup> AgentInfo)" where
  "mark_active a ags =
     (case ags a of
        None \<Rightarrow> Inl (KeyError a)
      | Some i \<Rightarrow> Inr (ags(a \<mapsto> i\<lparr>status := ''active'', active_tasks := active_tasks i + 1\<rparr>)))"

definition mark_idle :: "string \<Rightarrow> (string \<rightharpoonup> AgentInfo) \<Rightarrow> py_error + (string \<rightharpoonup> AgentInfo)" where
  "mark_idle a ags =
     (case ags a of
        None \<Rightarrow> Inl (KeyError a)
      | Some i \<Rightarrow> Inr (ags(a \<mapsto> i\<lparr>status := ''idle'', active_tasks := max 0 (active_tasks i - 1)\<rparr>)))"

definition routing_rules :: "(string \<times> string) list" where
  "routing_rules =
     [(''delivery_delay'', ''po_tracker''),
      (''price_change'', ''change_manager''),
      (''quantity_change'', ''change_manager''),
      (''acknowledgement_request'', ''po_tracker''),
      (''quality_issue'', ''change_manager''),
      (''general_inquiry'', ''inbox_agent'')]"

text \<open>\<^verbatim>\<open>routing_rules.get(intent, "inbox_agent")\<close>: a list or a dict is not hashable.\<close>

fun route_email :: "pyval \<Rightarrow> py_error + string" where
  "route_email (PStr s) =
     Inr (case map_of routing_rules s of None \<Rightarrow> ''inbox_agent'' | Some a \<Rightarrow> a)"
| "route_email (PList xs) = Inl TypeError"
| "route_email (PDict kvs) = Inl TypeError"
| "route_email v = Inr ''inbox_agent''"

record WorkflowResult =
  wf_action :: string
  wf_cost :: rat
  wf_po_number :: "pyval option"

type_synonym world = "AgentOrchestrator \<times> call_log"

definition po_tracker_workflow ::
  "Collaborators \<Rightarrow> Readings \<Rightarrow> pydict \<Rightarrow> pydict \<Rightarrow> string \<Rightarrow> world
     \<Rightarrow> (py_error + WorkflowResult) \<times> world" where
  "po_tracker_workflow col rd intent entities sender st =
     (case mark_active ''po_tracker'' (agents (fst st)) of
        Inl e \<Rightarrow> (Inl e, st)
      | Inr ags1 \<Rightarrow>
          (let orch1 = (fst st)\<lparr>agents := ags1\<rparr>;
               po_number = dict_get entities ''po_number'' PNone
           in case dict_item intent ''intent'' of
                Inl e \<Rightarrow> (Inl e, (orch1, snd st))
              | Inr iv \<Rightarrow>
                  (let prompt = ''PO '' @ py_str po_number @ '' has delivery update. Intent: ''
                                 @ py_str iv @ ''. Dates: ''
                                 @ py_str (dict_get entities ''dates'' (PList []))
                   in case call_llm (md5_hex col) (llm_provider col) ''decision_making'' prompt
                             (Some [(''intent'', PDict intent), (''entities'', PDict entities)])
                             None (cost_optimizer orch1, snd st) of
                        (Inl e, st2) \<Rightarrow> (Inl e, (orch1\<lparr>cost_optimizer := fst st2\<rparr>, snd st2))
                      | (Inr rc, st2) \<Rightarrow>
                          (let orch2 = orch1\<lparr>cost_optimizer := fst st2\<rparr>;
                               act = (if iv = PStr ''delivery_delay'' then ''escalate_if_critical''
                                      else if iv = PStr ''acknowledgement_request''
                                        then ''send_acknowledgement''
                                      else ''update_erp'')
                           in case log_event (now_iso rd) ''po_tracker'' act
                                     (PDict [(''po_number'', po_number), (''sender'', PStr sender)])
                                     ''success'' (snd rc) 0 (Some (request_id rd))
                                     (observability orch2) of
                                Inl e \<Rightarrow> (Inl e, (orch2, snd st2))
                              | Inr lg \<Rightarrow>
                                  (let orch3 = orch2\<lparr>observability := lg\<rparr>
                                   in case mark_idle ''po_tracker'' (agents orch3) of
                                        Inl e \<Rightarrow> (Inl e, (orch3, snd st2))
                                      | Inr ags4 \<Rightarrow>
                                          (Inr \<lparr>wf_action = act, wf_cost = snd rc,
                                                 wf_po_number = Some po_number\<rparr>,
                                           (orch3\<lparr>agents := ags4\<rparr>, snd st2)))))))"

definition change_manager_workflow ::
  "Collaborators \<Rightarrow> Readings \<Rightarrow> pydict \<Rightarrow> pydict \<Rightarrow> string \<Rightarrow> world
     \<Rightarrow> (py_error + WorkflowResult) \<times> world" where
  "change_manager_workflow col rd intent entities sender st =
     (case mark_active ''change_manager'' (agents (fst st)) of
        Inl e \<Rightarrow> (Inl e, st)
      | Inr ags1 \<Rightarrow>
          (let orch1 = (fst st)\<lparr>agents := ags1\<rparr>
           in case dict_item intent ''intent'' of
                Inl e \<Rightarrow> (Inl e, (orch1, snd st))
              | Inr iv \<Rightarrow>
                  (let prompt = ''Analyze impact of '' @ py_str iv @ '' for supplier '' @ sender
                                 @ ''. Entities: '' @ py_str (PDict entities)
                   in case call_llm (md5_hex col) (llm_provider col) ''multi_step_reasoning'' prompt
                             (Some [(''intent'', PDict intent), (''entities'', PDict entities)])
                             None (cost_optimizer orch1, snd st) of
                        (Inl e, st2) \<Rightarrow> (Inl e, (orch1\<lparr>cost_optimizer := fst st2\<rparr>, snd st2))
                      | (Inr rc, st2) \<Rightarrow>
                          (let orch2 = orch1\<lparr>cost_optimizer := fst st2\<rparr>;
                               act = (if iv = PStr ''price_change'' \<or> iv = PStr ''quantity_change''
                                      then ''requires_approval'' else ''log_change'')
                           in case log_event (now_iso rd) ''change_manager'' act
                                     (PDict [(''intent'', iv), (''sender'', PStr sender)])
                                     ''success'' (snd rc) 0 (Some (request_id rd))
                                     (observability orch2) of
                                Inl e \<Rightarrow> (Inl e, (orch2, snd st2))
                              | Inr lg \<Rightarrow>
                                  (let orch3 = orch2\<lparr>observability := lg\<rparr>
                                   in case mark_idle ''change_manager'' (agents orch3) of
                                        Inl e \<Rightarrow> (Inl e, (orch3, snd st2))
                                      | Inr ags4 \<Rightarrow>
                                          (Inr \<lparr>wf_action = act, wf_cost = snd rc,
                                                 wf_po_number = None\<rparr>,
                                           (orch3\<lparr>agents := ags4\<rparr>, snd st2)))))))"

definition execute_workflow ::
  "Collaborators \<Rightarrow> Readings \<Rightarrow> string \<Rightarrow> pydict \<Rightarrow> pydict \<Rightarrow> string \<Rightarrow> world
     \<Rightarrow> (py_error + WorkflowResult) \<times> world" where
  "execute_workflow col rd agent_name intent entities sender st =
     (if agent_name = ''po_tracker'' then po_tracker_workflow col rd intent entities sender st
      else if agent_name = ''change_manager''
        then change_manager_workflow col rd intent entities sender st
      else (Inr \<lparr>wf_action = ''logged'', wf_cost = 0, wf_po_number = None\<rparr>, st))"

record EmailResult =
  res_execution_id :: string
  res_intent :: pyval
  res_routed_agent :: string
  res_entities :: pydict
  res_workflow_result :: WorkflowResult
  res_cost :: rat
  res_duration_ms :: rat

text \<open>The body of the \<^verbatim>\<open>try\<close> of \<open>process_email\<close>.\<close>

definition process_email_try ::
  "Collaborators \<Rightarrow> Readings \<Rightarrow> string \<Rightarrow> string \<Rightarrow> string \<Rightarrow> world
     \<Rightarrow> (py_error + EmailResult) \<times> world" where
  "process_email_try col rd sender subject body st =
     (case mark_active ''inbox_agent'' (agents (fst st)) of
        Inl e \<Rightarrow> (Inl e, st)
      | Inr ags1 \<Rightarrow>
          (let orch1 = (fst st)\<lparr>agents := ags1\<rparr>
           in case extract_entities col body subject of
                Inl e \<Rightarrow> (Inl e, (orch1, snd st))
              | Inr entities \<Rightarrow>
          (case classify_intent col subject body of
                Inl e \<Rightarrow> (Inl e, (orch1, snd st))
              | Inr intent_result \<Rightarrow>
          (case log_event (now_iso rd) ''inbox_agent'' ''parse_email''
                  (PDict [(''sender'', PStr sender), (''subject'', PStr subject)])
                  ''success'' 0 (parse_duration rd) (Some (request_id rd))
                  (observability orch1) of
                Inl e \<Rightarrow> (Inl e, (orch1, snd st))
              | Inr lg2 \<Rightarrow>
          (let orch2 = orch1\<lparr>observability := lg2\<rparr>
           in case mark_active ''routing_agent'' (agents orch2) of
                Inl e \<Rightarrow> (Inl e, (orch2, snd st))
              | Inr ags3 \<Rightarrow>
          (let orch3 = orch2\<lparr>agents := ags3\<rparr>
           in case dict_item intent_result ''intent'' of
                Inl e \<Rightarrow> (Inl e, (orch3, snd st))
              | Inr iv \<Rightarrow>
          (case route_email iv of
                Inl e \<Rightarrow> (Inl e, (orch3, snd st))
              | Inr routed_agent \<Rightarrow>
          (case log_decision (now_iso rd) ''routing_agent'' (''route_to_'' @ routed_agent)
                  (''Intent: '' @ py_str iv @ '', PO: ''
                     @ py_str (dict_get entities ''po_number'' (PStr ''N/A'')))
                  [(''intent'', PDict intent_result), (''entities'', PDict entities)]
                  (Some (request_id rd)) (observability orch3) of
                Inl e \<Rightarrow> (Inl e, (orch3, snd st))
              | Inr lg4 \<Rightarrow>
          (case execute_workflow col rd routed_agent intent_result entities sender
                  (orch3\<lparr>observability := lg4\<rparr>, snd st) of
                (Inl e, st5) \<Rightarrow> (Inl e, st5)
              | (Inr workflow_result, st5) \<Rightarrow>
          (case mark_idle ''inbox_agent'' (agents (fst st5)) of
                Inl e \<Rightarrow> (Inl e, st5)
              | Inr ags6 \<Rightarrow>
          (case mark_idle ''routing_agent'' ags6 of
                Inl e \<Rightarrow> (Inl e, ((fst st5)\<lparr>agents := ags6\<rparr>, snd st5))
              | Inr ags7 \<Rightarrow>
                  (Inr \<lparr>res_execution_id = request_id rd, res_intent = iv,
                         res_routed_agent = routed_agent, res_entities = entities,
                         res_workflow_result = workflow_result,
                         res_cost = wf_cost workflow_result,
                         res_duration_ms = total_duration rd\<rparr>,
                   ((fst st5)\<lparr>agents := ags7\<rparr>, snd st5)))))))))))))"

text \<open>
  \<open>process_email\<close>: the \<^verbatim>\<open>except Exception\<close> clause logs a failure event under
  \<^verbatim>\<open>"orchestrator"\<close> and raises again.
\<close>

definition process_email ::
  "Collaborators \<Rightarrow> Readings \<Rightarrow> string \<Rightarrow> string \<Rightarrow> string \<Rightarrow> world
     \<Rightarrow> (py_error + EmailResult) \<times> world" where
  "process_email col rd sender subject body st =
     (case process_email_try col rd sender subject body st of
        (Inr res, st1) \<Rightarrow> (Inr res, st1)
      | (Inl e, st1) \<Rightarrow>
          (case log_event (now_iso rd) ''orchestrator'' ''process_email''
                  (PDict [(''error'', PStr (err_str e))])
                  ''failure'' 0 0 (Some (request_id rd)) (observability (fst st1)) of
             Inl e2 \<Rightarrow> (Inl e2, st1)
           | Inr lg \<Rightarrow> (Inl e, ((fst st1)\<lparr>observability := lg\<rparr>, snd st1))))"

section \<open>Notions used by the properties\<close>

subsection \<open>The tier selector as the specification words it\<close>

text \<open>
  The policy of the specification, rule by rule, over a context whose \<^verbatim>\<open>text\<close> is a
  string or absent and whose \<^verbatim>\<open>requires_reasoning\<close> is a boolean or absent.
\<close>

definition tier_selector_spec :: "string \<Rightarrow> string option \<Rightarrow> bool option \<Rightarrow> ModelTier" where
  "tier_selector_spec task_type text requires_reasoning =
     (if task_type \<in> {''extract_po_number'', ''parse_date'', ''extract_quantity''} then SMALL
      else if task_type \<in> {''classify_intent'', ''extract_entities'', ''format_response''} then
        (if (case text of None \<Rightarrow> 0 | Some t \<Rightarrow> length t) < 500 then SMALL else MEDIUM)
      else if task_type \<in> {''multi_step_reasoning'', ''decision_making'', ''coordination''}
              \<or> requires_reasoning = Some True then LARGE
      else MEDIUM)"

text \<open>
  The same policy over any context: a \<^verbatim>\<open>text\<close> of any value, whose \<^verbatim>\<open>len()\<close> may
  raise, and a \<^verbatim>\<open>requires_reasoning\<close> of any value, read as Python reads a condition.
\<close>

definition tier_selector_amended ::
  "string \<Rightarrow> pyval option \<Rightarrow> pyval option \<Rightarrow> py_error + ModelTier" where
  "tier_selector_amended task_type text requires_reasoning =
     (if task_type \<in> {''extract_po_number'', ''parse_date'', ''extract_quantity''} then Inr SMALL
      else if task_type \<in> {''classify_intent'', ''extract_entities'', ''format_response''} then
        (case text of
           None \<Rightarrow> Inr SMALL
         | Some v \<Rightarrow>
             (case py_len v of
                Inl e \<Rightarrow> Inl TypeError
              | Inr n \<Rightarrow> if n < 500 then Inr SMALL else Inr MEDIUM))
      else if task_type \<in> {''multi_step_reasoning'', ''decision_making'', ''coordination''}
              \<or> (case requires_reasoning of None \<Rightarrow> False | Some v \<Rightarrow> truthy v) then Inr LARGE
      else Inr MEDIUM)"

definition ctx_text :: "pydict \<Rightarrow> string option" where
  "ctx_text ctx = (case map_of ctx ''text'' of Some (PStr t) \<Rightarrow> Some t | _ \<Rightarrow> None)"

definition ctx_requires_reasoning :: "pydict \<Rightarrow> bool option" where
  "ctx_requires_reasoning ctx =
     (case map_of ctx ''requires_reasoning'' of Some (PBool b) \<Rightarrow> Some b | _ \<Rightarrow> None)"

definition typed_context :: "pydict \<Rightarrow> bool" where
  "typed_context ctx =
     ((case map_of ctx ''text'' of None \<Rightarrow> True | Some (PStr t) \<Rightarrow> True | Some v \<Rightarrow> False)
      \<and> (case map_of ctx ''requires_reasoning'' of
            None \<Rightarrow> True | Some (PBool b) \<Rightarrow> True | Some v \<Rightarrow> False))"

subsection \<open>Runs of the cache\<close>

text \<open>A cache as a Python dict of at most the capacity: no key twice.\<close>

definition cache_ok :: "(string \<times> string) list \<Rightarrow> bool" where
  "cache_ok c = (distinct (map fst c) \<and> length c \<le> max_cache_size)"

datatype cache_op =
    CachePut string string pydict string
  | CacheGet string string pydict

fun cache_step :: "(string \<Rightarrow> string) \<Rightarrow> CostOptimizer \<Rightarrow> cache_op \<Rightarrow> CostOptimizer" where
  "cache_step md5 opt (CachePut t p ctx r) =
     (case cache_response md5 t p ctx r opt of Inl e \<Rightarrow> opt | Inr opt1 \<Rightarrow> opt1)"
| "cache_step md5 opt (CacheGet t p ctx) =
     (case get_cached_response md5 t p ctx opt of Inl e \<Rightarrow> opt | Inr hit \<Rightarrow> snd hit)"

definition run_cache :: "(string \<Rightarrow> string) \<Rightarrow> cache_op list \<Rightarrow> CostOptimizer" where
  "run_cache md5 ops = foldl (cache_step md5) init_optimizer ops"

text \<open>The entries a run inserts, in order: key and response of every store that did not raise.\<close>

fun put_entries :: "(string \<Rightarrow> string) \<Rightarrow> cache_op list \<Rightarrow> (string \<times> string) list" where
  "put_entries md5 [] = []"
| "put_entries md5 (CachePut t p ctx r # ops) =
     (case generate_cache_key md5 t p ctx of
        Inl e \<Rightarrow> put_entries md5 ops
      | Inr k \<Rightarrow> (k, r) # put_entries md5 ops)"
| "put_entries md5 (CacheGet t p ctx # ops) = put_entries md5 ops"

subsection \<open>Events of a run of the ledger\<close>

text \<open>Agent and outcome of the event an operation records, if it records one.\<close>

fun op_event :: "ledger_op \<Rightarrow> (string \<times> string) option" where
  "op_event (LogEvent now a act ctx outc cst dur ex) =
     (case context_blob ctx of Inl e \<Rightarrow> None | Inr b \<Rightarrow> Some (a, outc))"
| "op_event (LogDecision now a dec rsn inputs ex) =
     (case context_blob (decision_context dec rsn inputs) of
        Inl e \<Rightarrow> None
      | Inr b \<Rightarrow> Some (a, ''success''))"
| "op_event (LogOverride now a orig rsn) = Some (a, ''overridden'')"

definition recorded :: "ledger_op list \<Rightarrow> (string \<times> string) list" where
  "recorded ops = List.map_filter op_event ops"

fun is_override_of :: "string \<Rightarrow> ledger_op \<Rightarrow> bool" where
  "is_override_of a (LogOverride now b orig rsn) = (a = b)"
| "is_override_of a x = False"

subsection \<open>A request whose provider fails\<close>

text \<open>
  The first email of \<^verbatim>\<open>test_demo.py\<close>, with what \<^verbatim>\<open>EmailParser\<close> (without
  spaCy) extracts from it and how it classifies it, and an inference provider that is out
  of quota and raises on every call.
\<close>

definition demo_entities :: pydict where
  "demo_entities =
     [(''po_number'', PStr ''12345''), (''quantities'', PList [PStr ''500'']),
      (''dates'', PList [PStr ''December 15, 2024'']), (''part_numbers'', PList []),
      (''prices'', PList [PStr ''12345'', PStr ''12345'', PStr ''3'']),
      (''confidence'', PFloat ''0.5'')]"

definition demo_intent :: pydict where
  "demo_intent =
     [(''intent'', PStr ''delivery_delay''), (''confidence'', PFloat ''0.3333333333333333''),
      (''scores'', PDict [(''delivery_delay'', PInt 2), (''price_change'', PInt 0),
                          (''quantity_change'', PInt 2), (''acknowledgement_request'', PInt 0),
                          (''quality_issue'', PInt 0), (''general_inquiry'', PInt 0)])]"

fun failing_provider :: provider where
  "failing_provider n tier prompt = Inl (Raised ''quota exceeded'')"

fun demo_extract :: "string \<Rightarrow> string \<Rightarrow> py_error + pydict" where
  "demo_extract body subject = Inr demo_entities"

fun demo_classify :: "string \<Rightarrow> string \<Rightarrow> py_error + pydict" where
  "demo_classify subject body = Inr demo_intent"

fun identity_digest :: "string \<Rightarrow> string" where
  "identity_digest s = s"

text \<open>A provider whose completion is empty.\<close>

fun empty_provider :: provider where
  "empty_provider n tier prompt = Inr ([], 1 / 100)"

definition failing_collaborators :: Collaborators where
  "failing_collaborators =
     \<lparr>md5_hex = identity_digest, llm_provider = failing_provider,
      extract_entities = demo_extract, classify_intent = demo_classify\<rparr>"

definition demo_readings :: Readings where
  "demo_readings =
     \<lparr>request_id = ''exec_1734256800_4821'', now_iso = ''2024-12-15T10:00:00'',
      parse_duration = 2, total_duration = 15\<rparr>"

text \<open>Status and task counter of an agent of the registry.\<close>

definition agent_state :: "AgentOrchestrator \<Rightarrow> string \<Rightarrow> (string \<times> int) option" where
  "agent_state orch a =
     (case agents orch a of None \<Rightarrow> None | Some i \<Rightarrow> Some (status i, active_tasks i))"

definition failed_request :: "(py_error + EmailResult) \<times> world" where
  "failed_request =
     process_email failing_collaborators demo_readings ''supplier@acme.com''
       ''PO #12345 Delivery Update''
       (''Dear buyer, Purchase Order #12345 will be delayed by 3 days. ''
          @ ''New delivery date: December 15, 2024. Quantity: 500 units. ''
          @ ''We apologize for the inconvenience.'')
       (init_orchestrator, [])"

section \<open>Tier selection and cache keys\<close>

text \<open>
  Over a context whose \<^verbatim>\<open>text\<close> is a string or absent and whose
  \<^verbatim>\<open>requires_reasoning\<close> is a boolean or absent, \<open>analyze_task_complexity\<close> returns the
  tier the specification's policy gives.
\<close>

lemma analyze_task_complexity_typed:
  "typed_context ctx \<Longrightarrow>
   analyze_task_complexity task_type ctx =
     Inr (tier_selector_spec task_type (ctx_text ctx) (ctx_requires_reasoning ctx))"
  by (auto simp: typed_context_def analyze_task_complexity_def tier_selector_spec_def ctx_text_def
      ctx_requires_reasoning_def dict_get_def simple_tasks_def medium_tasks_def complex_tasks_def
      split: option.splits pyval.splits)

text \<open>
  C7, as the specification states it, fails on two kinds of context. A task type in none
  of the three sets with \<^verbatim>\<open>requires_reasoning = "no"\<close> is routed to LARGE, though
  \<^verbatim>\<open>"no" == True\<close> is false and the stated policy gives MEDIUM. A task type in the
  medium set with \<^verbatim>\<open>text = None\<close> yields no tier: \<^verbatim>\<open>len(None)\<close> raises TypeError.
\<close>

theorem analyze_task_complexity_truthiness_counterexample:
  "analyze_task_complexity ''summarize'' [(''requires_reasoning'', PStr ''no'')] = Inr LARGE
   \<and> tier_selector_spec ''summarize'' None (Some False) = MEDIUM
   \<and> analyze_task_complexity ''classify_intent'' [(''text'', PNone)] = Inl TypeError"
  by (simp add: analyze_task_complexity_def tier_selector_spec_def dict_get_def
      simple_tasks_def medium_tasks_def complex_tasks_def)

text \<open>
  C7, as the code has it. For every task type and every context the tier selector is a
  function of the two, applying its rules in order, the first match winning: a task type
  of the simple set yields SMALL; one of the medium set yields SMALL when
  \<^verbatim>\<open>len(context.text) < 500\<close>, an absent text counting as length 0, MEDIUM otherwise,
  and raises TypeError when the text has no length; one of the complex set, or a context
  whose \<^verbatim>\<open>requires_reasoning\<close> is truthy, yields LARGE; everything else yields MEDIUM.
  Where the text is a string or absent and \<^verbatim>\<open>requires_reasoning\<close> is a boolean or
  absent, this is the policy of the specification as it is stated.
\<close>

theorem analyze_task_complexity_rules:
  "analyze_task_complexity task_type ctx =
     tier_selector_amended task_type (map_of ctx ''text'') (map_of ctx ''requires_reasoning'')
   \<and> (typed_context ctx \<longrightarrow>
        analyze_task_complexity task_type ctx =
          Inr (tier_selector_spec task_type (ctx_text ctx) (ctx_requires_reasoning ctx)))"
proof -
  have "analyze_task_complexity task_type ctx =
     tier_selector_amended task_type (map_of ctx ''text'') (map_of ctx ''requires_reasoning'')"
    by (cases "map_of ctx ''text''"; cases "map_of ctx ''requires_reasoning''")
       (auto simp: analyze_task_complexity_def tier_selector_amended_def dict_get_def
          simple_tasks_def medium_tasks_def complex_tasks_def split: sum.splits elim: py_len.elims)
  then show ?thesis using analyze_task_complexity_typed by blast
qed

theorem analyze_task_complexity_rules_witness:
  "typed_context [(''requires_reasoning'', PBool True), (''text'', PStr ''late'')]
   \<and> analyze_task_complexity ''classify_intent''
         [(''requires_reasoning'', PBool True), (''text'', PStr ''late'')] = Inr SMALL
   \<and> tier_selector_amended ''classify_intent'' (Some (PStr ''late'')) (Some (PBool True)) = Inr SMALL"
  using analyze_task_complexity_rules
          [of "''classify_intent''" "[(''requires_reasoning'', PBool True), (''text'', PStr ''late'')]"]
  by (simp add: typed_context_def tier_selector_spec_def tier_selector_amended_def ctx_text_def
      ctx_requires_reasoning_def)

lemma filter_key_single:
  "distinct (map fst xs) \<Longrightarrow> k \<in> set xs \<Longrightarrow> filter (\<lambda>x. fst k = fst x) xs = [k]"
  by (induction xs) (auto simp: filter_empty_conv rev_image_eqI)

lemma sort_key_distinct_eq:
  fixes xs ys :: "('a::linorder \<times> 'b) list"
  assumes "distinct (map fst xs)" "distinct (map fst ys)" "set xs = set ys"
  shows "sort_key fst xs = sort_key fst ys"
proof (rule properties_for_sort_key)
  have dx: "distinct xs" and dy: "distinct ys"
    using assms(1,2) by (auto simp: distinct_map)
  show "mset (sort_key fst ys) = mset xs"
    using assms(3) dx dy by (simp add: set_eq_iff_mset_eq_distinct)
  show "sorted (map fst (sort_key fst ys))" by simp
  fix k assume "k \<in> set (sort_key fst ys)"
  then have ky: "k \<in> set ys" by simp
  then have kx: "k \<in> set xs" using assms(3) by simp
  have "mset (map fst (sort_key fst ys)) = mset (map fst ys)" by simp
  then have ds: "distinct (map fst (sort_key fst ys))"
    using assms(2) mset_eq_imp_distinct_iff by blast
  have ks: "k \<in> set (sort_key fst ys)" using ky by simp
  show "filter (\<lambda>x. fst k = fst x) (sort_key fst ys) = filter (\<lambda>x. fst k = fst x) xs"
    by (simp add: filter_key_single [OF assms(1) kx] filter_key_single [OF ds ks])
qed

text \<open>
  C9. Two context maps holding the same key/value pairs, inserted in different orders,
  give the same cache key, for every task type, prompt and digest: the key is a function
  of its arguments, and the items of the context are sorted by key before they are
  encoded.
\<close>

theorem generate_cache_key_order_independent:
  assumes "distinct (map fst ctx1)" and "distinct (map fst ctx2)" and "set ctx1 = set ctx2"
  shows "generate_cache_key md5 task_type prompt ctx1 = generate_cache_key md5 task_type prompt ctx2"
  using sort_key_distinct_eq [OF assms] by (simp add: generate_cache_key_def)

theorem generate_cache_key_order_independent_witness:
  "distinct (map fst [(''text'', PStr ''late''), (''po'', PInt 7)])
   \<and> distinct (map fst [(''po'', PInt 7), (''text'', PStr ''late'')])
   \<and> set [(''text'', PStr ''late''), (''po'', PInt 7)]
       = set [(''po'', PInt 7), (''text'', PStr ''late'')]
   \<and> generate_cache_key (\<lambda>s. s) ''parse_date'' ''when'' [(''text'', PStr ''late''), (''po'', PInt 7)]
       = generate_cache_key (\<lambda>s. s) ''parse_date'' ''when'' [(''po'', PInt 7), (''text'', PStr ''late'')]"
proof -
  have d1: "distinct (map fst [(''text'', PStr ''late''), (''po'', PInt 7)])" by simp
  have d2: "distinct (map fst [(''po'', PInt 7), (''text'', PStr ''late'')])" by simp
  have s: "set [(''text'', PStr ''late''), (''po'', PInt 7)]
             = set [(''po'', PInt 7), (''text'', PStr ''late'')]" by auto
  show ?thesis
    using d1 d2 s generate_cache_key_order_independent [OF d1 d2 s, of "\<lambda>s. s" "''parse_date''" "''when''"]
    by blast
qed

section \<open>The ledger's metrics\<close>

lemma log_event_step:
  fixes lg now b act ctx outc cst dur ex
  defines "lg1 \<equiv> (case log_event now b act ctx outc cst dur ex lg of Inl e \<Rightarrow> lg | Inr l \<Rightarrow> l)"
  shows "total_actions (metrics_of lg1 a) =
           total_actions (metrics_of lg a)
             + (case context_blob ctx of Inl e \<Rightarrow> 0 | Inr s \<Rightarrow> if b = a then 1 else 0)"
    and "successful_actions (metrics_of lg1 a) =
           successful_actions (metrics_of lg a)
             + (case context_blob ctx of Inl e \<Rightarrow> 0
                | Inr s \<Rightarrow> if b = a \<and> outc = ''success'' then 1 else 0)"
    and "failed_actions (metrics_of lg1 a) =
           failed_actions (metrics_of lg a)
             + (case context_blob ctx of Inl e \<Rightarrow> 0
                | Inr s \<Rightarrow> if b = a \<and> outc \<noteq> ''success'' then 1 else 0)"
    and "overrides (metrics_of lg1 a) = overrides (metrics_of lg a)"
  unfolding lg1_def
  by (cases "context_blob ctx"; simp add: log_event_def Let_def metrics_of_def)+

lemma override_blob: "\<exists>b. context_blob (override_context orig rsn) = Inr b"
  by (simp add: context_blob_def override_context_def)

lemma log_override_snd:
  "snd (log_override now b orig rsn lg) =
     (case log_event now b ''override'' (override_context orig rsn) ''overridden'' 0 0 None
             (lg\<lparr>agent_metrics := (agent_metrics lg)(b \<mapsto> (metrics_of lg b)\<lparr>overrides := overrides (metrics_of lg b) + 1\<rparr>)\<rparr>) of
        Inl e \<Rightarrow> lg\<lparr>agent_metrics := (agent_metrics lg)(b \<mapsto> (metrics_of lg b)\<lparr>overrides := overrides (metrics_of lg b) + 1\<rparr>)\<rparr>
      | Inr l \<Rightarrow> l)"
  by (simp add: log_override_def Let_def split: sum.splits)

lemma step_counts:
  "total_actions (metrics_of (ledger_step lg x) a) =
     total_actions (metrics_of lg a) + (case op_event x of None \<Rightarrow> 0 | Some e \<Rightarrow> if fst e = a then 1 else 0)"
  "successful_actions (metrics_of (ledger_step lg x) a) =
     successful_actions (metrics_of lg a) + (if op_event x = Some (a, ''success'') then 1 else 0)"
  "failed_actions (metrics_of (ledger_step lg x) a) =
     failed_actions (metrics_of lg a)
       + (case op_event x of None \<Rightarrow> 0 | Some e \<Rightarrow> if fst e = a \<and> snd e \<noteq> ''success'' then 1 else 0)"
  "overrides (metrics_of (ledger_step lg x) a) =
     overrides (metrics_of lg a) + (if is_override_of a x then 1 else 0)"
proof (atomize (full), cases x, goal_cases)
  case (1 now b act ctx outc cst dur ex)
  then show ?case
    by (auto simp: log_event_step split: sum.splits)
next
  case (2 now b dec rsn inputs ex)
  then show ?case
    by (auto simp: log_decision_def log_event_step split: sum.splits)
next
  case (3 now b orig rsn)
  obtain s where s: "context_blob (override_context orig rsn) = Inr s"
    using override_blob by blast
  define lg0 where
    "lg0 = lg\<lparr>agent_metrics := (agent_metrics lg)(b \<mapsto> (metrics_of lg b)\<lparr>overrides := overrides (metrics_of lg b) + 1\<rparr>)\<rparr>"
  have m0: "metrics_of lg0 a = (if a = b then (metrics_of lg b)\<lparr>overrides := overrides (metrics_of lg b) + 1\<rparr>
                                else metrics_of lg a)"
    by (simp add: lg0_def metrics_of_def)
  have st: "ledger_step lg x =
      (case log_event now b ''override'' (override_context orig rsn) ''overridden'' 0 0 None lg0 of
         Inl e \<Rightarrow> lg0 | Inr l \<Rightarrow> l)"
    unfolding 3 ledger_step.simps log_override_snd lg0_def ..
  show ?case unfolding st log_event_step
    by (auto simp: s m0 3)
qed

lemma run_counts:
  "total_actions (metrics_of (foldl ledger_step lg ops) a) =
     total_actions (metrics_of lg a) + length (filter (\<lambda>e. fst e = a) (List.map_filter op_event ops))"
  "successful_actions (metrics_of (foldl ledger_step lg ops) a) =
     successful_actions (metrics_of lg a)
       + length (filter (\<lambda>e. e = (a, ''success'')) (List.map_filter op_event ops))"
  "failed_actions (metrics_of (foldl ledger_step lg ops) a) =
     failed_actions (metrics_of lg a)
       + length (filter (\<lambda>e. fst e = a \<and> snd e \<noteq> ''success'') (List.map_filter op_event ops))"
  "overrides (metrics_of (foldl ledger_step lg ops) a) =
     overrides (metrics_of lg a) + length (filter (is_override_of a) ops)"
  by (induction ops arbitrary: lg;
      auto simp: step_counts map_filter_simps split: option.splits)+

lemma overrides_are_failures:
  "length (filter (is_override_of a) ops)
     \<le> length (filter (\<lambda>e. fst e = a \<and> snd e \<noteq> ''success'') (List.map_filter op_event ops))"
proof (induction ops)
  case Nil
  show ?case by (simp add: map_filter_simps)
next
  case (Cons x ops)
  then show ?case
    by (cases x) (auto simp: map_filter_simps split: option.splits sum.splits)
qed

text \<open>
  C2, as the code has it. After every sequence of ledger operations and for every agent,
  \<open>total_actions = successful_actions + failed_actions\<close>, over all the agent's events:
  \<open>successful_actions\<close> counts its events with outcome \<^verbatim>\<open>"success"\<close> and
  \<open>failed_actions\<close> counts its events with any other outcome. An override is counted by
  the override counter, and its \<^verbatim>\<open>"overridden"\<close> event is counted in \<open>total_actions\<close>
  and in \<open>failed_actions\<close> as well, so the override count never exceeds
  \<open>failed_actions\<close>.
\<close>

theorem ledger_metrics_consistent:
  "total_actions (metrics_of (run_ledger ops) a)
     = successful_actions (metrics_of (run_ledger ops) a) + failed_actions (metrics_of (run_ledger ops) a)
   \<and> total_actions (metrics_of (run_ledger ops) a) = length (filter (\<lambda>e. fst e = a) (recorded ops))
   \<and> successful_actions (metrics_of (run_ledger ops) a)
       = length (filter (\<lambda>e. e = (a, ''success'')) (recorded ops))
   \<and> failed_actions (metrics_of (run_ledger ops) a)
       = length (filter (\<lambda>e. fst e = a \<and> snd e \<noteq> ''success'') (recorded ops))
   \<and> overrides (metrics_of (run_ledger ops) a) = length (filter (is_override_of a) ops)
   \<and> overrides (metrics_of (run_ledger ops) a) \<le> failed_actions (metrics_of (run_ledger ops) a)"
proof -
  have z: "metrics_of init_logger a = default_metrics"
    by (simp add: metrics_of_def init_logger_def)
  have "length (filter (\<lambda>e. fst e = a) xs)
      = length (filter (\<lambda>e. e = (a, ''success'')) xs)
        + length (filter (\<lambda>e. fst e = a \<and> snd e \<noteq> ''success'') xs)"
    for xs :: "(string \<times> string) list"
    by (induction xs) (auto simp: prod_eq_iff)
  then have split: "length (filter (\<lambda>e. fst e = a) (recorded ops))
      = length (filter (\<lambda>e. e = (a, ''success'')) (recorded ops))
        + length (filter (\<lambda>e. fst e = a \<and> snd e \<noteq> ''success'') (recorded ops))" .
  show ?thesis
    using split overrides_are_failures [of a ops]
    by (simp add: run_ledger_def recorded_def run_counts z default_metrics_def)
qed

theorem ledger_metrics_consistent_witness:
  "total_actions (metrics_of (run_ledger
       [LogEvent ''t1'' ''po_tracker'' ''update_erp'' (PDict []) ''success'' 0 0 None,
        LogEvent ''t2'' ''po_tracker'' ''update_erp'' (PDict []) ''failure'' 0 0 None,
        LogOverride ''t3'' ''po_tracker'' ''update_erp'' ''wrong PO'']) ''po_tracker'') = 3
   \<and> failed_actions (metrics_of (run_ledger
       [LogEvent ''t1'' ''po_tracker'' ''update_erp'' (PDict []) ''success'' 0 0 None,
        LogEvent ''t2'' ''po_tracker'' ''update_erp'' (PDict []) ''failure'' 0 0 None,
        LogOverride ''t3'' ''po_tracker'' ''update_erp'' ''wrong PO'']) ''po_tracker'') = 2"
  using ledger_metrics_consistent
          [of "[LogEvent ''t1'' ''po_tracker'' ''update_erp'' (PDict []) ''success'' 0 0 None,
                LogEvent ''t2'' ''po_tracker'' ''update_erp'' (PDict []) ''failure'' 0 0 None,
                LogOverride ''t3'' ''po_tracker'' ''update_erp'' ''wrong PO'']" "''po_tracker''"]
  by (simp add: recorded_def context_blob_def)

text \<open>
  C2, as the specification states it, fails: one override on a fresh ledger, with no
  event of outcome \<^verbatim>\<open>"failure"\<close> logged, leaves \<open>failed_actions = 1\<close> for the agent.
\<close>

theorem override_folded_into_failed_actions:
  "failed_actions (metrics_of
      (run_ledger [LogOverride ''2024-12-15T10:00:00'' ''po_tracker'' ''update_erp'' ''wrong PO''])
      ''po_tracker'') = 1
   \<and> overrides (metrics_of
      (run_ledger [LogOverride ''2024-12-15T10:00:00'' ''po_tracker'' ''update_erp'' ''wrong PO''])
      ''po_tracker'') = 1
   \<and> map ev_outcome (events
      (run_ledger [LogOverride ''2024-12-15T10:00:00'' ''po_tracker'' ''update_erp'' ''wrong PO'']))
      = [''overridden'']"
  by (simp add: run_ledger_def log_override_def log_event_def context_blob_def override_context_def
      metrics_of_def init_logger_def default_metrics_def max_events_def Let_def)

text \<open>
  C3. \<open>log_event\<close> raises on a dict context that holds a value outside the JSON types:
  here a \<^verbatim>\<open>datetime\<close> under the key \<^verbatim>\<open>"due"\<close>. The TypeError of
  \<^verbatim>\<open>json.dumps\<close> leaves the call, and nothing is recorded.
\<close>

theorem log_event_raises_on_unserializable_dict:
  "log_event ''2024-12-15T10:00:00'' ''po_tracker'' ''update_erp''
     (PDict [(''due'', PObj ''2024-12-15 00:00:00'' ''datetime.datetime(2024, 12, 15, 0, 0)'')]) ''success'' 0 0 None init_logger
   = Inl TypeError"
  by (simp add: log_event_def context_blob_def)

text \<open>Only a dict context can make \<open>log_event\<close> raise: any other value is stringified.\<close>

lemma log_event_stringifies_non_dict:
  "\<forall>d. ctx \<noteq> PDict d \<Longrightarrow> \<exists>lg1. log_event now a act ctx outc cst dur ex lg = Inr lg1"
  by (cases ctx) (simp_all add: log_event_def context_blob_def Let_def)

section \<open>The response cache\<close>

lemma dict_set_fresh: "k \<notin> fst ` set c \<Longrightarrow> dict_set k v c = c @ [(k, v)]"
  by (induction c) auto

lemma dict_set_present: "k \<in> fst ` set c \<Longrightarrow> length (dict_set k v c) = length c"
  by (induction c) auto

lemma dict_set_keys: "fst ` set (dict_set k v c) = insert k (fst ` set c)"
  by (induction c) auto

lemma dict_set_distinct: "distinct (map fst c) \<Longrightarrow> distinct (map fst (dict_set k v c))"
proof (induction c)
  case Nil
  show ?case by simp
next
  case (Cons p c)
  have "fst p \<notin> fst ` set (dict_set k v c)" if "fst p \<noteq> k"
    using that Cons.prems by (simp add: dict_set_keys)
  then show ?case using Cons by auto
qed

lemma dict_set_map_of: "map_of (dict_set k v c) = (map_of c)(k \<mapsto> v)"
  by (induction c) (auto simp: fun_eq_iff)

lemma dict_del_head: "distinct (map fst (p # c)) \<Longrightarrow> dict_del (fst p) (p # c) = c"
  by (auto simp: dict_del_def filter_id_conv rev_image_eqI)

lemma cache_put_cases:
  assumes "cache_ok c"
  shows "cache_put k v c =
           (if k \<in> fst ` set c then dict_set k v c
            else if length c < max_cache_size then c @ [(k, v)]
            else tl (c @ [(k, v)]))"
proof (cases "k \<in> fst ` set c")
  case True
  then show ?thesis using assms
    by (simp add: cache_put_def cache_ok_def dict_set_present)
next
  case False
  have d: "distinct (map fst (c @ [(k, v)]))"
    using assms False by (auto simp: cache_ok_def)
  show ?thesis
  proof (cases c)
    case Nil
    then show ?thesis using False by (simp add: cache_put_def max_cache_size_def)
  next
    case (Cons p c')
    then show ?thesis using False assms d dict_del_head [of p "c' @ [(k, v)]"]
      by (auto simp: cache_put_def cache_ok_def dict_set_fresh)
  qed
qed

lemma cache_put_ok: "cache_ok c \<Longrightarrow> cache_ok (cache_put k v c)"
proof -
  assume ok: "cache_ok c"
  have "distinct (map fst (tl (c @ [(k, v)])))" if "k \<notin> fst ` set c"
    using that ok by (cases c) (auto simp: cache_ok_def)
  then show ?thesis using ok
    by (auto simp: cache_put_cases cache_ok_def dict_set_distinct dict_set_present)
qed

lemma cache_put_lookup: "cache_ok c \<Longrightarrow> map_of (cache_put k v c) k = Some v"
proof -
  assume ok: "cache_ok c"
  have "map_of (tl (c @ [(k, v)])) k = Some v" if "k \<notin> fst ` set c" "\<not> length c < max_cache_size"
  proof (cases c)
    case Nil
    then show ?thesis using that by (simp add: max_cache_size_def)
  next
    case (Cons p c')
    then have "map_of c' k = None" using that(1) by (simp add: map_of_eq_None_iff)
    then show ?thesis using Cons by (simp add: map_add_def)
  qed
  moreover have "map_of (c @ [(k, v)]) k = Some v" if "k \<notin> fst ` set c"
    using that by (simp add: map_add_def map_of_eq_None_iff [symmetric])
  ultimately show ?thesis using ok
    by (auto simp: cache_put_cases dict_set_map_of)
qed

lemma run_cache_cache:
  "cache (foldl (cache_step md5) opt ops) =
     foldl (\<lambda>c e. cache_put (fst e) (snd e) c) (cache opt) (put_entries md5 ops)"
proof (induction ops arbitrary: opt)
  case Nil
  show ?case by simp
next
  case (Cons x ops)
  show ?case
  proof (cases x)
    case (CachePut t p ctx r)
    then show ?thesis
      by (cases "generate_cache_key md5 t p ctx") (simp_all add: Cons cache_response_def)
  next
    case (CacheGet t p ctx)
    then show ?thesis
      by (cases "generate_cache_key md5 t p ctx")
         (simp_all add: Cons get_cached_response_def split: option.splits)
  qed
qed

lemma puts_ok:
  "cache_ok c \<Longrightarrow> cache_ok (foldl (\<lambda>c e. cache_put (fst e) (snd e) c) c es)"
  by (induction es arbitrary: c) (simp_all add: cache_put_ok)

lemma puts_append:
  "distinct (map fst (c @ es)) \<Longrightarrow> length c + length es \<le> max_cache_size \<Longrightarrow>
   foldl (\<lambda>c e. cache_put (fst e) (snd e) c) c es = c @ es"
proof (induction es arbitrary: c)
  case Nil
  show ?case by simp
next
  case (Cons e es)
  have ok: "cache_ok c" using Cons.prems by (simp add: cache_ok_def)
  have fresh: "fst e \<notin> fst ` set c" using Cons.prems(1) by auto
  have "cache_put (fst e) (snd e) c = c @ [e]"
    using ok fresh Cons.prems(2) by (simp add: cache_put_cases)
  moreover have "foldl (\<lambda>c e. cache_put (fst e) (snd e) c) (c @ [e]) es = (c @ [e]) @ es"
    using Cons.prems by (intro Cons.IH) auto
  ultimately show ?case by simp
qed

lemma puts_overflow:
  assumes "distinct (map fst es)" and "length es = max_cache_size + 1"
  shows "foldl (\<lambda>c e. cache_put (fst e) (snd e) c) [] es = tl es"
proof -
  obtain es' e where es: "es = es' @ [e]"
    using assms(2) by (cases es rule: rev_cases) auto
  have len: "length es' = max_cache_size" using assms(2) es by simp
  have d: "distinct (map fst ([] @ es'))" using assms(1) es by simp
  have first: "foldl (\<lambda>c e. cache_put (fst e) (snd e) c) [] es' = es'"
    using puts_append [OF d] len by simp
  have ok: "cache_ok es'" using d len by (simp add: cache_ok_def)
  have fresh: "fst e \<notin> fst ` set es'" using assms(1) es by auto
  have "cache_put (fst e) (snd e) es' = tl (es' @ [e])"
    using ok fresh len by (simp add: cache_put_cases)
  then show ?thesis using first es by simp
qed

text \<open>
  C8. Whatever sequence of stores and reads runs on a fresh optimizer, the cache never
  holds more than its capacity of 1000 entries; and when the stores of the run insert
  capacity + 1 distinct keys, the cache ends as those entries without the first one, in
  their order of insertion: the first-inserted key alone is evicted, and the reads in
  between protect nothing.
\<close>

theorem cache_bounded_fifo:
  "length (cache (run_cache md5 ops)) \<le> max_cache_size
   \<and> (distinct (map fst (put_entries md5 ops)) \<and> length (put_entries md5 ops) = max_cache_size + 1
        \<longrightarrow> cache (run_cache md5 ops) = tl (put_entries md5 ops))"
proof -
  have "cache_ok (cache (run_cache md5 ops))"
    unfolding run_cache_def run_cache_cache
    by (rule puts_ok) (simp add: init_optimizer_def cache_ok_def)
  then show ?thesis
    by (auto simp: cache_ok_def run_cache_def run_cache_cache init_optimizer_def puts_overflow)
qed


theorem cache_bounded_fifo_witness:
  "distinct (map fst (put_entries (\<lambda>s. s)
      (CachePut ''parse_date'' [] [] ''r'' # CacheGet ''parse_date'' [] []
        # map (\<lambda>n. CachePut ''parse_date'' (CHR ''a'' # replicate n CHR ''a'') [] ''r'') [0..<1000])))
   \<and> length (put_entries (\<lambda>s. s)
      (CachePut ''parse_date'' [] [] ''r'' # CacheGet ''parse_date'' [] []
        # map (\<lambda>n. CachePut ''parse_date'' (CHR ''a'' # replicate n CHR ''a'') [] ''r'') [0..<1000]))
       = max_cache_size + 1
   \<and> cache (run_cache (\<lambda>s. s)
      (CachePut ''parse_date'' [] [] ''r'' # CacheGet ''parse_date'' [] []
        # map (\<lambda>n. CachePut ''parse_date'' (CHR ''a'' # replicate n CHR ''a'') [] ''r'') [0..<1000]))
       = tl (put_entries (\<lambda>s. s)
      (CachePut ''parse_date'' [] [] ''r'' # CacheGet ''parse_date'' [] []
        # map (\<lambda>n. CachePut ''parse_date'' (CHR ''a'' # replicate n CHR ''a'') [] ''r'') [0..<1000]))"
proof -
  have pe: "put_entries (\<lambda>s. s) (map (\<lambda>n. CachePut ''parse_date'' (CHR ''a'' # replicate n CHR ''a'') [] ''r'') ns)
      = map (\<lambda>n. (''parse_date:a'' @ replicate n CHR ''a'' @ '':{}'', ''r'')) ns" for ns :: "nat list"
    by (induction ns) (simp_all add: generate_cache_key_def)
  have k0: "generate_cache_key (\<lambda>s. s) ''parse_date'' [] [] = Inr ''parse_date::{}''"
    by (simp add: generate_cache_key_def)
  have d: "distinct (map fst (put_entries (\<lambda>s. s)
      (CachePut ''parse_date'' [] [] ''r'' # CacheGet ''parse_date'' [] []
        # map (\<lambda>n. CachePut ''parse_date'' (CHR ''a'' # replicate n CHR ''a'') [] ''r'') [0..<1000])))"
    by (auto simp: pe k0 distinct_map inj_on_def comp_def)
  have l: "length (put_entries (\<lambda>s. s)
      (CachePut ''parse_date'' [] [] ''r'' # CacheGet ''parse_date'' [] []
        # map (\<lambda>n. CachePut ''parse_date'' (CHR ''a'' # replicate n CHR ''a'') [] ''r'') [0..<1000]))
       = max_cache_size + 1"
    by (simp add: pe k0 max_cache_size_def)
  show ?thesis
    using d l cache_bounded_fifo [of "\<lambda>s. s" "CachePut ''parse_date'' [] [] ''r'' # CacheGet ''parse_date'' [] []
        # map (\<lambda>n. CachePut ''parse_date'' (CHR ''a'' # replicate n CHR ''a'') [] ''r'') [0..<1000]"]
    by blast
qed

section \<open>Calls through the optimizer\<close>

lemma call_llm_hit:
  assumes "generate_cache_key md5 t p (case context of None \<Rightarrow> [] | Some c \<Rightarrow> c) = Inr key"
    and "map_of (cache opt) key = Some r" and "r \<noteq> []"
  shows "call_llm md5 prov t p context ft (opt, calls) =
           (Inr (r, 0), (opt\<lparr>cache_hits := cache_hits opt + 1\<rparr>, calls))"
  using assms
  by (cases r) (simp_all add: call_llm_def get_cached_response_def)

lemma cascade_accept:
  assumes ctx: "ctx = (case context of None \<Rightarrow> [] | Some c \<Rightarrow> c)"
    and key: "generate_cache_key md5 t p ctx = Inr key"
    and miss: "map_of (cache opt) key = None"
    and elig: "t \<notin> set never_cascade"
    and tier: "analyze_task_complexity t ctx = Inr tier"
    and small: "prov (length calls) SMALL p = Inr (r, c)" and long: "length r > 10"
  shows "call_llm md5 prov t p context None (opt, calls) =
           (Inr (r, c),
            (opt\<lparr>cache_misses := cache_misses opt + 1,
                 calls_by_tier := (calls_by_tier opt)(SMALL := calls_by_tier opt SMALL + 1),
                 cache := cache_put key r (cache opt)\<rparr>,
             calls @ [(SMALL, p)]))"
  using key miss elig tier small long
  unfolding ctx
  by (simp add: call_llm_def get_cached_response_def try_small_def cache_response_def
      bump_tier_def Let_def)

text \<open>
  C5. For a task type outside the never-cascade set, with no forced tier and the key not
  in the cache: when tier selection has returned and the provider's answer at SMALL is
  longer than 10 characters, \<open>call_llm\<close> returns that response and its cost, counts
  the call under SMALL (and one cache miss), stores the response under the key, where a
  lookup then finds it, and makes this one provider call only: the selected tier is
  never invoked.
\<close>

theorem call_llm_cascade_accepted:
  assumes ctx: "ctx = (case context of None \<Rightarrow> [] | Some c \<Rightarrow> c)"
    and key: "generate_cache_key md5 t p ctx = Inr key"
    and miss: "map_of (cache opt) key = None"
    and elig: "t \<notin> set never_cascade"
    and tier: "analyze_task_complexity t ctx = Inr tier"
    and small: "prov (length calls) SMALL p = Inr (r, c)" and long: "length r > 10"
    and ok: "cache_ok (cache opt)"
  shows "call_llm md5 prov t p context None (opt, calls) =
           (Inr (r, c),
            (opt\<lparr>cache_misses := cache_misses opt + 1,
                 calls_by_tier := (calls_by_tier opt)(SMALL := calls_by_tier opt SMALL + 1),
                 cache := cache_put key r (cache opt)\<rparr>,
             calls @ [(SMALL, p)]))
         \<and> map_of (cache_put key r (cache opt)) key = Some r"
  using cascade_accept [where prov = prov and calls = calls, OF ctx key miss elig tier small long]
    cache_put_lookup [OF ok, of key r]
  by simp

text \<open>
  C6. For the same eligible call, when the attempt at SMALL raises or answers with 10
  characters or fewer, the attempt leaves no trace in the statistics and the provider is
  called at the selected tier: its answer is returned, counted under that tier, its cost
  added to \<open>total_cost\<close> and the response cached; a raise of the provider there is the
  result of \<open>call_llm\<close>.
\<close>

theorem call_llm_cascade_rejected:
  assumes ctx: "ctx = (case context of None \<Rightarrow> [] | Some c \<Rightarrow> c)"
    and key: "generate_cache_key md5 t p ctx = Inr key"
    and miss: "map_of (cache opt) key = None"
    and elig: "t \<notin> set never_cascade"
    and tier: "analyze_task_complexity t ctx = Inr tier"
    and fail: "(\<exists>e. prov (length calls) SMALL p = Inl e)
               \<or> (\<exists>r0 c0. prov (length calls) SMALL p = Inr (r0, c0) \<and> length r0 \<le> 10)"
  shows "(\<forall>r c. prov (Suc (length calls)) tier p = Inr (r, c) \<longrightarrow>
            call_llm md5 prov t p context None (opt, calls) =
              (Inr (r, c),
               (opt\<lparr>cache_misses := cache_misses opt + 1,
                    calls_by_tier := (calls_by_tier opt)(tier := calls_by_tier opt tier + 1),
                    total_cost := total_cost opt + c,
                    cache := cache_put key r (cache opt)\<rparr>,
                calls @ [(SMALL, p), (tier, p)])))
         \<and> (\<forall>e. prov (Suc (length calls)) tier p = Inl e \<longrightarrow>
              call_llm md5 prov t p context None (opt, calls) =
                (Inl e, (opt\<lparr>cache_misses := cache_misses opt + 1\<rparr>, calls @ [(SMALL, p), (tier, p)])))"
  using key miss elig tier fail
  unfolding ctx
  by (auto simp: call_llm_def get_cached_response_def try_small_def use_tier_def cache_response_def
      bump_tier_def Let_def)


lemma try_small_Some:
  assumes "cache_ok (cache opt)" and "generate_cache_key md5 t p ctx = Inr key"
    and "try_small md5 prov t p ctx (opt, calls) = (Some (r, c), (opt1, calls1))"
  shows "map_of (cache opt1) key = Some r \<and> cache_ok (cache opt1)
         \<and> prov (length calls) SMALL p = Inr (r, c) \<and> length r > 10
         \<and> total_cost opt1 = total_cost opt \<and> calls1 = calls @ [(SMALL, p)]"
  using assms cache_put_lookup [OF assms(1), of key r] cache_put_ok [OF assms(1), of key r]
  by (auto simp: try_small_def cache_response_def bump_tier_def Let_def
      split: sum.splits if_splits)

lemma try_small_None:
  assumes "generate_cache_key md5 t p ctx = Inr key"
    and "try_small md5 prov t p ctx (opt, calls) = (None, (opt1, calls1))"
  shows "opt1 = opt \<and> calls1 = calls @ [(SMALL, p)]"
  using assms
  by (auto simp: try_small_def cache_response_def Let_def split: sum.splits if_splits)

lemma use_tier_Inr:
  assumes "cache_ok (cache opt)" and "generate_cache_key md5 t p ctx = Inr key"
    and "use_tier md5 prov tier t p ctx (opt, calls) = (Inr (r, c), (opt1, calls1))"
  shows "map_of (cache opt1) key = Some r \<and> cache_ok (cache opt1)
         \<and> prov (length calls) tier p = Inr (r, c)"
  using assms cache_put_lookup [OF assms(1), of key r] cache_put_ok [OF assms(1), of key r]
  by (auto simp: use_tier_def cache_response_def bump_tier_def Let_def split: sum.splits)

lemma call_llm_caches:
  assumes ok: "cache_ok (cache opt)"
    and res: "call_llm md5 prov t p context ft (opt, calls) = (Inr (r, c), (opt1, calls1))"
  shows "\<exists>key. generate_cache_key md5 t p (case context of None \<Rightarrow> [] | Some x \<Rightarrow> x) = Inr key
           \<and> map_of (cache opt1) key = Some r \<and> cache_ok (cache opt1)
           \<and> (r = [] \<longrightarrow> (\<exists>n tier. prov n tier p = Inr (r, c)))"
proof -
  define ctx where "ctx = (case context of None \<Rightarrow> [] | Some x \<Rightarrow> x)"
  obtain key where key: "generate_cache_key md5 t p ctx = Inr key"
    using res unfolding ctx_def
    by (cases "generate_cache_key md5 t p (case context of None \<Rightarrow> [] | Some x \<Rightarrow> x)")
       (auto simp: call_llm_def get_cached_response_def)
  define opt0 where "opt0 = (case map_of (cache opt) key of
      Some x \<Rightarrow> opt\<lparr>cache_hits := cache_hits opt + 1\<rparr>
    | None \<Rightarrow> opt\<lparr>cache_misses := cache_misses opt + 1\<rparr>)"
  have g: "get_cached_response md5 t p ctx opt = Inr (map_of (cache opt) key, opt0)"
    by (simp add: get_cached_response_def key opt0_def split: option.splits)
  have ok0: "cache_ok (cache opt0)" and c0: "cache opt0 = cache opt"
    using ok by (auto simp: opt0_def split: option.splits)
  show ?thesis
  proof (cases "\<exists>x xs. map_of (cache opt) key = Some (x # xs)")
    case True
    then obtain x xs where h: "map_of (cache opt) key = Some (x # xs)" by blast
    have "r = x # xs" "opt1 = opt0"
      using res g h unfolding ctx_def [symmetric] call_llm_def by (simp_all add: ctx_def [symmetric])
    then show ?thesis using key h ok0 c0 unfolding ctx_def by simp
  next
    case False
    then have miss: "(case map_of (cache opt) key of Some (x # xs) \<Rightarrow> A x xs | _ \<Rightarrow> B) = B" for A :: "char \<Rightarrow> string \<Rightarrow> 'z" and B :: 'z
      by (auto split: option.splits list.splits)
    obtain tier where tier: "(case ft of Some t' \<Rightarrow> Inr t' | None \<Rightarrow> analyze_task_complexity t ctx) = Inr tier"
      using res g unfolding call_llm_def ctx_def [symmetric]
      by (cases "(case ft of Some t' \<Rightarrow> Inr t' | None \<Rightarrow> analyze_task_complexity t ctx)")
         (auto simp: miss ctx_def [symmetric])
    show ?thesis
    proof (cases "ft = None \<and> t \<notin> set never_cascade")
      case True
      obtain a st1 where ts: "try_small md5 prov t p ctx (opt0, calls) = (a, st1)"
        by (cases "try_small md5 prov t p ctx (opt0, calls)") auto
      show ?thesis
      proof (cases a)
        case None
        have st1: "st1 = (opt0, calls @ [(SMALL, p)])"
          using try_small_None [OF key, of prov opt0 calls "fst st1" "snd st1"] ts None
          by (cases st1) simp
        have "use_tier md5 prov tier t p ctx (opt0, calls @ [(SMALL, p)]) = (Inr (r, c), (opt1, calls1))"
          using res g tier True ts None st1 unfolding call_llm_def ctx_def [symmetric]
          by (simp add: miss ctx_def [symmetric])
        from use_tier_Inr [OF ok0 key this] show ?thesis
          using key unfolding ctx_def by blast
      next
        case (Some rc)
        have "rc = (r, c)" "st1 = (opt1, calls1)"
          using res g tier True ts Some unfolding call_llm_def ctx_def [symmetric]
          by (simp_all add: miss ctx_def [symmetric])
        then have "try_small md5 prov t p ctx (opt0, calls) = (Some (r, c), (opt1, calls1))"
          using ts Some by simp
        from try_small_Some [OF ok0 key this] show ?thesis
          using key unfolding ctx_def by auto
      qed
    next
      case False
      have "use_tier md5 prov tier t p ctx (opt0, calls) = (Inr (r, c), (opt1, calls1))"
        using res g tier False unfolding call_llm_def ctx_def [symmetric]
        by (auto simp: miss ctx_def [symmetric])
      from use_tier_Inr [OF ok0 key this] show ?thesis
        using key unfolding ctx_def by blast
    qed
  qed
qed


lemma call_llm_idempotent_nonempty:
  assumes ok: "cache_ok (cache opt)"
    and res: "call_llm md5 prov t p context ft (opt, calls) = (Inr (r, c), (opt1, calls1))"
    and ne: "r \<noteq> []"
  shows "call_llm md5 prov t p context ft (opt1, calls1) =
           (Inr (r, 0), (opt1\<lparr>cache_hits := cache_hits opt1 + 1\<rparr>, calls1))"
proof -
  obtain key where "generate_cache_key md5 t p (case context of None \<Rightarrow> [] | Some x \<Rightarrow> x) = Inr key"
    and "map_of (cache opt1) key = Some r"
    using call_llm_caches [OF ok res] by blast
  then show ?thesis using ne by (rule call_llm_hit)
qed

lemma call_openai_nonempty: "fst (call_openai av tier p) \<noteq> []"
  by (cases tier) (simp_all add: call_openai_def mock_response_def Let_def)

text \<open>
  With the provider of the repository (\<^verbatim>\<open>_call_openai\<close>, in either of its modes), whose
  responses are never empty, the repeated call is always served from the cache.
\<close>

lemma call_llm_repo_provider_idempotent:
  assumes ok: "cache_ok (cache opt)"
    and res: "call_llm md5 (repo_provider av) t p context ft (opt, calls) = (Inr (r, c), (opt1, calls1))"
  shows "call_llm md5 (repo_provider av) t p context ft (opt1, calls1) =
           (Inr (r, 0), (opt1\<lparr>cache_hits := cache_hits opt1 + 1\<rparr>, calls1))"
proof -
  have "r \<noteq> []"
  proof
    assume e: "r = []"
    then obtain n tier where "repo_provider av n tier p = Inr (r, c)"
      using call_llm_caches [OF ok res] by blast
    then have "fst (call_openai av tier p) = []"
      using e by (simp add: repo_provider_def)
    then show False using call_openai_nonempty by blast
  qed
  with ok res show ?thesis by (rule call_llm_idempotent_nonempty)
qed


lemma example_key:
  "generate_cache_key (\<lambda>s. s) ''decision_making'' ''PO 12345'' [] = Inr ''decision_making:PO 12345:{}''"
  by (simp add: generate_cache_key_def)

lemma example_tier: "analyze_task_complexity ''decision_making'' [] = Inr LARGE"
  by (simp add: analyze_task_complexity_def simple_tasks_def medium_tasks_def complex_tasks_def)

lemma example_mock:
  "repo_provider False n SMALL ''PO 12345'' = Inr (''Mock response from gpt-3.5-turbo'', 19 / 1000000)"
  by (simp add: repo_provider_def call_openai_def mock_response_def Let_def)


theorem call_llm_cascade_accepted_witness:
  "call_llm (\<lambda>s. s) (repo_provider False) ''decision_making'' ''PO 12345'' None None
     (init_optimizer, []) =
   (Inr (''Mock response from gpt-3.5-turbo'', 19 / 1000000),
    (init_optimizer\<lparr>cache_misses := 1,
        calls_by_tier := (calls_by_tier init_optimizer)(SMALL := 1),
        cache := [(''decision_making:PO 12345:{}'', ''Mock response from gpt-3.5-turbo'')]\<rparr>,
     [(SMALL, ''PO 12345'')]))"
proof -
  have h1: "[] = (case (None :: pydict option) of None \<Rightarrow> [] | Some c \<Rightarrow> c)" by simp
  have h3: "map_of (cache init_optimizer) ''decision_making:PO 12345:{}'' = None"
    by (simp add: init_optimizer_def)
  have h4: "''decision_making'' \<notin> set never_cascade" by (simp add: never_cascade_def)
  have h6: "repo_provider False (length ([] :: call_log)) SMALL ''PO 12345''
              = Inr (''Mock response from gpt-3.5-turbo'', 19 / 1000000)"
    by (rule example_mock)
  have h7: "length ''Mock response from gpt-3.5-turbo'' > 10" by simp
  have ok: "cache_ok (cache init_optimizer)"
    by (simp add: cache_ok_def init_optimizer_def)
  show ?thesis
    using call_llm_cascade_accepted [where prov = "repo_provider False" and calls = "[]", OF h1 example_key h3 h4 example_tier h6 h7 ok]
    by (simp add: init_optimizer_def cache_put_def max_cache_size_def)
qed

theorem call_llm_cascade_rejected_witness:
  "call_llm (\<lambda>s. s)
     (\<lambda>n tier p. if n = 0 then Inl (Raised ''timeout'') else Inr (''Escalate to the buyer'', 3 / 100))
     ''decision_making'' ''PO 12345'' None None (init_optimizer, []) =
   (Inr (''Escalate to the buyer'', 3 / 100),
    (init_optimizer\<lparr>cache_misses := 1,
        calls_by_tier := (calls_by_tier init_optimizer)(LARGE := 1),
        total_cost := 3 / 100,
        cache := [(''decision_making:PO 12345:{}'', ''Escalate to the buyer'')]\<rparr>,
     [(SMALL, ''PO 12345''), (LARGE, ''PO 12345'')]))"
proof -
  have h1: "[] = (case (None :: pydict option) of None \<Rightarrow> [] | Some c \<Rightarrow> c)" by simp
  have h3: "map_of (cache init_optimizer) ''decision_making:PO 12345:{}'' = None"
    by (simp add: init_optimizer_def)
  have h4: "''decision_making'' \<notin> set never_cascade" by (simp add: never_cascade_def)
  have h6: "(\<exists>e. (\<lambda>n tier p. if n = 0 then Inl (Raised ''timeout'') else Inr (''Escalate to the buyer'', 3 / 100))
                   (length ([] :: call_log)) SMALL ''PO 12345'' = Inl e)
            \<or> (\<exists>r0 c0. (\<lambda>n tier p. if n = 0 then Inl (Raised ''timeout'') else Inr (''Escalate to the buyer'', 3 / 100 :: rat))
                   (length ([] :: call_log)) SMALL ''PO 12345'' = Inr (r0, c0) \<and> length r0 \<le> 10)"
    by simp
  show ?thesis
    using call_llm_cascade_rejected [where prov = "\<lambda>n tier p. if n = 0 then Inl (Raised ''timeout'') else Inr (''Escalate to the buyer'', 3 / 100)"
                  and calls = "[]", OF h1 example_key h3 h4 example_tier h6]
    by (simp add: init_optimizer_def cache_put_def max_cache_size_def)
qed




text \<open>
  C4. The test \<^verbatim>\<open>if cached:\<close> reads an empty cached response as a miss. With a
  provider whose completion is the empty string, the first of two equal calls caches the
  response; the second is counted as a cache hit by \<open>get_cached_response\<close> and still
  calls the provider, counts the call under its tier and returns and charges the cost
  again: the cost of the second call is not 0.
\<close>

theorem call_llm_empty_response_called_twice:
  "call_llm identity_digest empty_provider ''parse_date'' ''Dec 15'' None None
     (init_optimizer, []) =
   (Inr ([], 1 / 100),
    (init_optimizer\<lparr>cache_misses := 1,
         calls_by_tier := (calls_by_tier init_optimizer)(SMALL := 1),
         total_cost := 1 / 100,
         cache := [(''parse_date:Dec 15:{}'', [])]\<rparr>,
     [(SMALL, ''Dec 15'')]))
   \<and> call_llm identity_digest empty_provider ''parse_date'' ''Dec 15'' None None
     (init_optimizer\<lparr>cache_misses := 1,
         calls_by_tier := (calls_by_tier init_optimizer)(SMALL := 1),
         total_cost := 1 / 100,
         cache := [(''parse_date:Dec 15:{}'', [])]\<rparr>,
      [(SMALL, ''Dec 15'')]) =
   (Inr ([], 1 / 100),
    (init_optimizer\<lparr>cache_misses := 1,
         calls_by_tier := (calls_by_tier init_optimizer)(SMALL := 2),
         total_cost := 2 / 100,
         cache := [(''parse_date:Dec 15:{}'', [])],
         cache_hits := 1\<rparr>,
     [(SMALL, ''Dec 15''), (SMALL, ''Dec 15'')]))"
  by (simp add: call_llm_def get_cached_response_def generate_cache_key_def
      analyze_task_complexity_def simple_tasks_def never_cascade_def
      use_tier_def cache_response_def cache_put_def bump_tier_def
      init_optimizer_def max_cache_size_def Let_def numeral_2_eq_2)

section \<open>The agent registry\<close>

text \<open>
  On the normal path the agents are restored: a request that returns leaves
  \<^verbatim>\<open>inbox_agent\<close> and \<^verbatim>\<open>routing_agent\<close> idle, and a workflow of the PO tracker that
  returns leaves \<^verbatim>\<open>po_tracker\<close> idle.
\<close>

lemma mark_idle_state:
  "mark_idle a ags = Inr ags1 \<Longrightarrow> map_option status (ags1 a) = Some ''idle''"
  "mark_idle a ags = Inr ags1 \<Longrightarrow> b \<noteq> a \<Longrightarrow> ags1 b = ags b"
  by (auto simp: mark_idle_def split: option.splits)

lemma process_email_success_restores:
  assumes "process_email col rd sender subject body st = (Inr res, st1)"
  shows "map_option status (agents (fst st1) ''inbox_agent'') = Some ''idle''
       \<and> map_option status (agents (fst st1) ''routing_agent'') = Some ''idle''"
proof -
  have "process_email_try col rd sender subject body st = (Inr res, st1)"
    using assms unfolding process_email_def
    by (auto split: sum.splits prod.splits)
  then show ?thesis
    unfolding process_email_try_def Let_def
    by (auto simp: mark_idle_def split: sum.splits prod.splits option.splits)
qed

lemma po_tracker_workflow_success_restores:
  assumes "po_tracker_workflow col rd intent entities sender st = (Inr res, st1)"
  shows "map_option status (agents (fst st1) ''po_tracker'') = Some ''idle''"
  using assms unfolding po_tracker_workflow_def Let_def
  by (auto split: sum.splits prod.splits dest: mark_idle_state(1))

text \<open>
  C1. The agents marked active are not restored when the stage workflow raises. In the
  request of \<open>failed_request\<close> the provider raises in the call of the PO tracker's
  workflow; \<open>process_email\<close> logs the failure and raises again, and leaves
  \<^verbatim>\<open>inbox_agent\<close>, \<^verbatim>\<open>routing_agent\<close> and \<^verbatim>\<open>po_tracker\<close> with status
  \<^verbatim>\<open>"active"\<close> and a task counter of 1.
\<close>

theorem process_email_failure_leaves_agents_active:
  "fst failed_request = Inl (Raised ''quota exceeded'')
   \<and> map (agent_state (fst (snd failed_request)))
         [''inbox_agent'', ''routing_agent'', ''po_tracker'']
       = [Some (''active'', 1), Some (''active'', 1), Some (''active'', 1)]
   \<and> map (agent_state init_orchestrator) [''inbox_agent'', ''routing_agent'', ''po_tracker'']
       = [Some (''idle'', 0), Some (''idle'', 0), Some (''idle'', 0)]"
  by code_simp

end
